theory Spec2Isabelle
  imports Complex_Main
begin

section \<open>Weather alert system: condition evaluation, matching, event publication\<close>

text \<open>
  The TypeScript \<^verbatim>\<open>number\<close> is modelled as \<^typ>\<open>real\<close>: comparison, subtraction and
  absolute value are the mathematical ones (NaN, the infinities and rounding are outside the
  model). \<^verbatim>\<open>T | null\<close> is \<^typ>\<open>'a option\<close>, with \<^term>\<open>None\<close> for \<^verbatim>\<open>null\<close> and
  \<^verbatim>\<open>undefined\<close>. Timestamps are milliseconds, as \<^typ>\<open>int\<close>.
\<close>

subsection \<open>evaluate-alert.use-case.ts\<close>

datatype Parameter = TEMPERATURE | WIND_SPEED | PRECIPITATION

datatype Operator = GT | GTE | LT | LTE | EQ | NE

record WeatherValues =
  temperatureC :: "real option"
  windSpeedMps :: "real option"
  precipitationMmHr :: "real option"

record Evaluation =
  currentValue :: "real option"
  triggered :: bool

text \<open>\<^verbatim>\<open>valueMap[parameter]\<close>: the object literal built at the top of the function.\<close>

fun valueMap :: "WeatherValues \<Rightarrow> Parameter \<Rightarrow> real option" where
  "valueMap values TEMPERATURE = temperatureC values"
| "valueMap values WIND_SPEED = windSpeedMps values"
| "valueMap values PRECIPITATION = precipitationMmHr values"

text \<open>
  The \<^verbatim>\<open>switch (operator)\<close>; its \<^verbatim>\<open>default\<close> branch is unreachable for a value of the
  union type \<^verbatim>\<open>Operator\<close>.
\<close>

fun evaluateAlertCondition :: "Parameter \<Rightarrow> Operator \<Rightarrow> real \<Rightarrow> WeatherValues \<Rightarrow> Evaluation" where
  "evaluateAlertCondition parameter operator threshold values =
     (case valueMap values parameter of
        None \<Rightarrow> \<lparr>currentValue = None, triggered = False\<rparr>
      | Some v \<Rightarrow>
          (case operator of
             GT \<Rightarrow> \<lparr>currentValue = Some v, triggered = (v > threshold)\<rparr>
           | GTE \<Rightarrow> \<lparr>currentValue = Some v, triggered = (v \<ge> threshold)\<rparr>
           | LT \<Rightarrow> \<lparr>currentValue = Some v, triggered = (v < threshold)\<rparr>
           | LTE \<Rightarrow> \<lparr>currentValue = Some v, triggered = (v \<le> threshold)\<rparr>
           | EQ \<Rightarrow> \<lparr>currentValue = Some v, triggered = (v = threshold)\<rparr>
           | NE \<Rightarrow> \<lparr>currentValue = Some v, triggered = (v \<noteq> threshold)\<rparr>))"

text \<open>
  The comparison the specification calls standard, written independently of the code:
  the six operators as relations on the reals.
\<close>

fun compare_spec :: "Operator \<Rightarrow> real \<Rightarrow> real \<Rightarrow> bool" where
  "compare_spec GT v t = (t < v)"
| "compare_spec GTE v t = (t \<le> v)"
| "compare_spec LT v t = (v < t)"
| "compare_spec LTE v t = (v \<le> t)"
| "compare_spec EQ v t = (v = t)"
| "compare_spec NE v t = (v \<noteq> t)"

subsection \<open>ports/alert-repository.ts and prisma-alert.repository.ts\<close>

text \<open>
  An alert row. \<open>AlertCommon\<close> holds the fields that every reader of a row uses;
  \<open>AlertRecord\<close> adds the typed fields of the port's \<^verbatim>\<open>AlertRecord\<close>. The fields
  \<^verbatim>\<open>description\<close>, \<^verbatim>\<open>units\<close>, \<^verbatim>\<open>createdAt\<close> and \<^verbatim>\<open>updatedAt\<close> are never read
  by the code modelled here and are left out. The field \<^verbatim>\<open>id\<close> is called \<open>alert_id\<close>.
\<close>

record AlertCommon =
  alert_id :: string
  name :: "string option"
  cityName :: "string option"
  latitude :: "real option"
  longitude :: "real option"
  lastValue :: "real option"
  lastState :: "bool option"
  lastEvaluatedAt :: "int option"

record AlertRecord = AlertCommon +
  parameter :: Parameter
  operator :: Operator
  threshold :: real
  contactEmail :: "string option"
  contactPhone :: "string option"

datatype Err =
    RecordNotFound string
  | KafkaNotConnected
  | ProducerSendFailed
  | CircuitOpen int
  | AxiosError "nat option"
  | RetryExhausted

text \<open>
  \<^verbatim>\<open>PrismaAlertRepository.updateAlertAfterEvaluation\<close>: \<^verbatim>\<open>prisma.alert.update\<close> on the row
  with the given id, which rejects when there is no such row. \<open>now\<close> is the
  \<^verbatim>\<open>new Date()\<close> of the write. \<^verbatim>\<open>createHistory\<close> is never passed by the callers
  modelled here, so no evaluation history row is created.
\<close>

definition updateAlertAfterEvaluation ::
  "string \<Rightarrow> Evaluation \<Rightarrow> int \<Rightarrow> ('z AlertCommon_scheme) list \<Rightarrow> Err + ('z AlertCommon_scheme) list" where
  "updateAlertAfterEvaluation alertId update now table =
     (if alertId \<in> set (map alert_id table)
      then Inr (map (\<lambda>row. if alert_id row = alertId
                             then row\<lparr>lastValue := currentValue update,
                                      lastState := Some (triggered update),
                                      lastEvaluatedAt := Some now\<rparr>
                             else row) table)
      else Inl (RecordNotFound alertId))"

subsection \<open>event-driven-alert-evaluation.use-case.ts: findAlertsForLocation\<close>

text \<open>\<^verbatim>\<open>x || 0\<close> on a \<^verbatim>\<open>number | null\<close>: null and 0 both give 0.\<close>

fun or_zero :: "real option \<Rightarrow> real" where
  "or_zero None = 0"
| "or_zero (Some x) = x"

text \<open>The predicate of the \<^verbatim>\<open>filter\<close> callback.\<close>

definition withinRadius :: "'z AlertCommon_scheme \<Rightarrow> real \<Rightarrow> real \<Rightarrow> real \<Rightarrow> bool" where
  "withinRadius alert lat lon radiusDegrees =
     (let alertLat = or_zero (latitude alert);
          alertLon = or_zero (longitude alert);
          latDiff = \<bar>alertLat - lat\<bar>;
          lonDiff = \<bar>alertLon - lon\<bar>
      in latDiff \<le> radiusDegrees \<and> lonDiff \<le> radiusDegrees)"

text \<open>
  The filter over \<^verbatim>\<open>alertRepository.listAlerts()\<close>; \<open>alerts\<close> is the repository's
  answer.
\<close>

definition findAlertsForLocation ::
  "('z AlertCommon_scheme) list \<Rightarrow> real \<Rightarrow> real \<Rightarrow> real \<Rightarrow> ('z AlertCommon_scheme) list" where
  "findAlertsForLocation alerts lat lon radiusDegrees =
     filter (\<lambda>alert. withinRadius alert lat lon radiusDegrees) alerts"

subsection \<open>kafka.service.ts: events and publication\<close>

datatype Source = api | scheduled | manual

record WeatherEventData = WeatherValues +
  ev_latitude :: real
  ev_longitude :: real
  timestamp :: int
  source :: Source

text \<open>
  The alert-evaluation event. Its threshold is what the producer read from the alert's
  \<^verbatim>\<open>value\<close>, which may be \<^verbatim>\<open>undefined\<close>.
\<close>

record AlertEventData =
  ae_alertId :: string
  ae_alertName :: "string option"
  ae_triggered :: bool
  ae_previousState :: "bool option"
  ae_currentValue :: real
  ae_threshold :: "real option"
  ae_parameter :: string
  ae_latitude :: real
  ae_longitude :: real
  ae_cityName :: "string option"
  ae_timestamp :: int
  ae_evaluationDurationMs :: int

text \<open>
  The message of a notification is a string rendered from the fields below
  (\<^verbatim>\<open>createNotificationMessage\<close>); the model keeps the fields instead of the rendering.
\<close>

record NotificationMessage =
  msg_alertName :: string
  msg_location :: "string + real \<times> real"
  msg_parameterName :: string
  msg_unit :: string
  msg_currentValue :: real
  msg_threshold :: "real option"

datatype NotificationType = email | sms | push

datatype DeliveryStatus = pending | sent | failed

record NotificationEventData =
  n_alertId :: string
  n_alertName :: string
  n_type :: NotificationType
  n_recipient :: string
  n_message :: NotificationMessage
  n_timestamp :: int
  n_deliveryStatus :: DeliveryStatus

text \<open>
  The broker as the service sees it: whether the producer is connected, whether
  \<^verbatim>\<open>producer.send\<close> rejects, and the messages sent to each topic so far.
\<close>

record Kafka =
  isConnected :: bool
  sendRejects :: bool
  weatherUpdates :: "WeatherEventData list"
  alertEvaluations :: "AlertEventData list"
  notifications :: "NotificationEventData list"


definition publishAlertEvaluation :: "AlertEventData \<Rightarrow> Kafka \<Rightarrow> Err + Kafka" where
  "publishAlertEvaluation data k =
     (if \<not> isConnected k then Inl KafkaNotConnected
      else if sendRejects k then Inl ProducerSendFailed
      else Inr (k\<lparr>alertEvaluations := alertEvaluations k @ [data]\<rparr>))"

definition publishNotification :: "NotificationEventData \<Rightarrow> Kafka \<Rightarrow> Err + Kafka" where
  "publishNotification data k =
     (if \<not> isConnected k then Inl KafkaNotConnected
      else if sendRejects k then Inl ProducerSendFailed
      else Inr (k\<lparr>notifications := notifications k @ [data]\<rparr>))"

subsection \<open>event-driven-weather.provider.ts\<close>

text \<open>
  \<^verbatim>\<open>RealtimeWeatherData\<close>. The \<^verbatim>\<open>raw\<close> field is the upstream body, or the object the
  provider builds for demo data, whose \<^verbatim>\<open>message\<close> says so.
\<close>

datatype Raw =
    UpstreamBody
  | DemoCooldown real real
  | DemoRateLimited real real

record RealtimeWeatherData = WeatherValues +
  raw :: Raw

text \<open>\<^verbatim>\<open>a ?? b\<close>.\<close>

fun nullish :: "'a option \<Rightarrow> 'a \<Rightarrow> 'a" where
  "nullish None d = d"
| "nullish (Some x) d = x"








subsection \<open>event-driven-alert-evaluation.use-case.ts: evaluation and notification\<close>

text \<open>
  \<^verbatim>\<open>evaluateAlertWithEvent\<close> takes its alert as \<^verbatim>\<open>any\<close>. \<open>AlertAny\<close> lists what the
  function reads from it, at the types it uses: \<^verbatim>\<open>parameter\<close> is compared with the
  strings \<^verbatim>\<open>'temperature'\<close>, \<^verbatim>\<open>'windSpeed'\<close> and \<^verbatim>\<open>'precipitation'\<close>, and the threshold
  is read from \<^verbatim>\<open>value\<close>, which is \<^verbatim>\<open>undefined\<close> when the object has no such
  property.
\<close>

record AlertAny = AlertCommon +
  any_parameter :: string
  any_operator :: Operator
  any_value :: "real option"

text \<open>
  The alerts that reach the function are the rows of \<^verbatim>\<open>listAlerts()\<close>, which are
  \<^verbatim>\<open>AlertRecord\<close> objects. Read at \<^verbatim>\<open>any\<close>, such a row has as \<^verbatim>\<open>parameter\<close> the string
  of the \<^verbatim>\<open>AlertParameter\<close> union and has no property \<^verbatim>\<open>value\<close>: its threshold is
  the property \<^verbatim>\<open>threshold\<close>, which the function does not read.
\<close>

fun parameterName :: "Parameter \<Rightarrow> string" where
  "parameterName TEMPERATURE = ''TEMPERATURE''"
| "parameterName WIND_SPEED = ''WIND_SPEED''"
| "parameterName PRECIPITATION = ''PRECIPITATION''"

definition asAny :: "AlertRecord \<Rightarrow> AlertAny" where
  "asAny row =
     \<lparr>alert_id = alert_id row, name = name row, cityName = cityName row,
      latitude = latitude row, longitude = longitude row,
      lastValue = lastValue row, lastState = lastState row, lastEvaluatedAt = lastEvaluatedAt row,
      any_parameter = parameterName (parameter row), any_operator = operator row, any_value = None\<rparr>"

text \<open>\<^verbatim>\<open>String.prototype.toUpperCase\<close> on ASCII.\<close>

definition upperChar :: "char \<Rightarrow> char" where
  "upperChar c =
     (let n = (of_char c :: nat)
      in if 97 \<le> n \<and> n \<le> 122 then char_of (n - 32) else c)"

definition toUpperCase :: "string \<Rightarrow> string" where
  "toUpperCase s = map upperChar s"

text \<open>
  The call of \<^verbatim>\<open>evaluateAlertCondition\<close> with the cast
  \<^verbatim>\<open>alert.parameter.toUpperCase() as any\<close> and with \<^verbatim>\<open>threshold: alert.value\<close>: a string
  that is one of the three keys of \<^verbatim>\<open>valueMap\<close> selects that key; for any other
  string the lookup is \<^verbatim>\<open>undefined\<close> and \<^verbatim>\<open>evaluateAlertCondition\<close> takes its
  \<^verbatim>\<open>== null\<close> branch. When the threshold is \<^verbatim>\<open>undefined\<close>, every comparison of the
  number with it is false, except \<^verbatim>\<open>!==\<close>.
\<close>

definition parameterOfKey :: "string \<Rightarrow> Parameter option" where
  "parameterOfKey k =
     (if k = ''TEMPERATURE'' then Some TEMPERATURE
      else if k = ''WIND_SPEED'' then Some WIND_SPEED
      else if k = ''PRECIPITATION'' then Some PRECIPITATION
      else None)"

definition evaluateAlertConditionAny :: "string \<Rightarrow> Operator \<Rightarrow> real option \<Rightarrow> WeatherValues \<Rightarrow> Evaluation" where
  "evaluateAlertConditionAny k op t values =
     (case parameterOfKey k of
        None \<Rightarrow> \<lparr>currentValue = None, triggered = False\<rparr>
      | Some p \<Rightarrow>
          (case t of
             Some th \<Rightarrow> evaluateAlertCondition p op th values
           | None \<Rightarrow>
               (case valueMap values p of
                  None \<Rightarrow> \<lparr>currentValue = None, triggered = False\<rparr>
                | Some v \<Rightarrow> \<lparr>currentValue = Some v, triggered = (op = NE)\<rparr>)))"

definition extractWeatherValue :: "WeatherEventData \<Rightarrow> string \<Rightarrow> real option" where
  "extractWeatherValue weatherData p =
     (if p = ''temperature'' then temperatureC weatherData
      else if p = ''windSpeed'' then windSpeedMps weatherData
      else if p = ''precipitation'' then precipitationMmHr weatherData
      else None)"

text \<open>The \<^verbatim>\<open>values\<close> literal handed to \<^verbatim>\<open>evaluateAlertCondition\<close>.\<close>

definition selectedValues :: "string \<Rightarrow> real \<Rightarrow> WeatherValues" where
  "selectedValues p v =
     \<lparr>temperatureC = (if p = ''temperature'' then Some v else None),
      windSpeedMps = (if p = ''windSpeed'' then Some v else None),
      precipitationMmHr = (if p = ''precipitation'' then Some v else None)\<rparr>"

text \<open>
  \<^verbatim>\<open>evaluateAlertWithEvent\<close>. The result is the settlement of the returned promise
  with the table of the repository and the broker as the call leaves them. \<open>now\<close> is
  the clock read by the write and by the event's timestamp.
\<close>

definition evaluateAlertWithEvent ::
  "AlertAny \<Rightarrow> WeatherEventData \<Rightarrow> int \<Rightarrow> int \<Rightarrow> AlertRecord list \<times> Kafka \<Rightarrow> (Err + unit) \<times> AlertRecord list \<times> Kafka" where
  "evaluateAlertWithEvent alert weatherData evaluationStartTime now st =
     (case extractWeatherValue weatherData (any_parameter alert) of
        None \<Rightarrow> (Inr (), st)
      | Some v \<Rightarrow>
          (let previousState = nullish (lastState alert) False;
               evaluation = evaluateAlertConditionAny (toUpperCase (any_parameter alert))
                  (any_operator alert) (any_value alert) (selectedValues (any_parameter alert) v);
               trig = triggered evaluation
           in case updateAlertAfterEvaluation (alert_id alert)
                     \<lparr>currentValue = Some v, triggered = trig\<rparr> now (fst st) of
                Inl e \<Rightarrow> (Inl e, st)
              | Inr table' \<Rightarrow>
                  (let alertEvent =
                        \<lparr>ae_alertId = alert_id alert,
                         ae_alertName = name alert,
                         ae_triggered = trig,
                         ae_previousState = Some previousState,
                         ae_currentValue = v,
                         ae_threshold = any_value alert,
                         ae_parameter = any_parameter alert,
                         ae_latitude = or_zero (latitude alert),
                         ae_longitude = or_zero (longitude alert),
                         ae_cityName = cityName alert,
                         ae_timestamp = now,
                         ae_evaluationDurationMs = now - evaluationStartTime\<rparr>
                   in case publishAlertEvaluation alertEvent (snd st) of
                        Inl e \<Rightarrow> (Inl e, table', snd st)
                      | Inr k' \<Rightarrow> (Inr (), table', k'))))"

text \<open>
  \<^verbatim>\<open>handleWeatherUpdate\<close>: the matched alerts are the rows read at the start, handed
  on at \<^verbatim>\<open>any\<close>; each is evaluated and the settlements are collected
  (\<^verbatim>\<open>Promise.allSettled\<close>). The evaluations are taken in list order.
\<close>

fun evaluateEach ::
  "AlertAny list \<Rightarrow> WeatherEventData \<Rightarrow> int \<Rightarrow> int \<Rightarrow> AlertRecord list \<times> Kafka \<Rightarrow> (Err + unit) list \<times> AlertRecord list \<times> Kafka" where
  "evaluateEach [] weatherData startTime now st = ([], st)"
| "evaluateEach (alert # rest) weatherData startTime now st =
     (let (r, st') = evaluateAlertWithEvent alert weatherData startTime now st;
          (rs, st'') = evaluateEach rest weatherData startTime now st'
      in (r # rs, st''))"

definition handleWeatherUpdate ::
  "WeatherEventData \<Rightarrow> int \<Rightarrow> int \<Rightarrow> AlertRecord list \<times> Kafka \<Rightarrow> (Err + unit) list \<times> AlertRecord list \<times> Kafka" where
  "handleWeatherUpdate weatherData startTime now st =
     (let relevantAlerts = findAlertsForLocation (fst st) (ev_latitude weatherData) (ev_longitude weatherData) (1/100)
      in if length relevantAlerts = 0 then ([], st)
         else evaluateEach (map asAny relevantAlerts) weatherData startTime now st)"

text \<open>\<^verbatim>\<open>s || d\<close> on a \<^verbatim>\<open>string | undefined\<close>: undefined and the empty string give \<open>d\<close>.\<close>

fun or_string :: "string option \<Rightarrow> string \<Rightarrow> string" where
  "or_string None d = d"
| "or_string (Some s) d = (if s = [] then d else s)"

definition createNotificationMessage :: "AlertEventData \<Rightarrow> NotificationMessage" where
  "createNotificationMessage alertData =
     \<lparr>msg_alertName = or_string (ae_alertName alertData) ''Alert'',
      msg_location = (case ae_cityName alertData of
                        None \<Rightarrow> Inr (ae_latitude alertData, ae_longitude alertData)
                      | Some c \<Rightarrow> if c = [] then Inr (ae_latitude alertData, ae_longitude alertData) else Inl c),
      msg_parameterName =
        (if ae_parameter alertData = ''temperature'' then ''Temperature''
         else if ae_parameter alertData = ''windSpeed'' then ''Wind Speed''
         else if ae_parameter alertData = ''precipitation'' then ''Precipitation''
         else ae_parameter alertData),
      msg_unit =
        (if ae_parameter alertData = ''temperature'' then ''C''
         else if ae_parameter alertData = ''windSpeed'' then '' m/s''
         else if ae_parameter alertData = ''precipitation'' then '' mm/hr''
         else []),
      msg_currentValue = ae_currentValue alertData,
      msg_threshold = ae_threshold alertData\<rparr>"

text \<open>
  \<^verbatim>\<open>handleAlertEvaluation\<close>: a notification is published when the event is triggered
  and its previous state is falsy; a rejected publication is caught and logged. The
  second \<^verbatim>\<open>if\<close> only logs.
\<close>

definition handleAlertEvaluation :: "AlertEventData \<Rightarrow> int \<Rightarrow> Kafka \<Rightarrow> Kafka" where
  "handleAlertEvaluation alertData now k =
     (if ae_triggered alertData \<and> \<not> nullish (ae_previousState alertData) False
      then (let notificationEvent =
                  \<lparr>n_alertId = ae_alertId alertData,
                   n_alertName = or_string (ae_alertName alertData) (''Alert '' @ ae_alertId alertData),
                   n_type = email,
                   n_recipient = ''user@example.com'',
                   n_message = createNotificationMessage alertData,
                   n_timestamp = now,
                   n_deliveryStatus = pending\<rparr>
            in case publishNotification notificationEvent k of Inl e \<Rightarrow> k | Inr k' \<Rightarrow> k')
      else k)"

subsection \<open>evaluate-all-alerts.use-case.ts and scheduler.service.ts\<close>

text \<open>
  The weather provider port: \<^verbatim>\<open>getRealtime(latitude, longitude, source)\<close> either
  resolves with an observation or rejects, and may change the provider's own state
  \<open>'p\<close>.
\<close>

type_synonym 'p WeatherProvider = "real \<Rightarrow> real \<Rightarrow> Source \<Rightarrow> 'p \<Rightarrow> (Err + RealtimeWeatherData) \<times> 'p"

text \<open>The values handed to \<^verbatim>\<open>evaluateAlertCondition\<close> by both use cases of the file.\<close>

definition scheduledValues :: "RealtimeWeatherData \<Rightarrow> WeatherValues" where
  "scheduledValues weatherData =
     \<lparr>temperatureC = temperatureC weatherData,
      windSpeedMps = windSpeedMps weatherData,
      precipitationMmHr = Some (nullish (precipitationMmHr weatherData) 0)\<rparr>"

text \<open>
  \<^verbatim>\<open>EvaluateAllAlertsUseCase.execute\<close>: the \<^verbatim>\<open>for\<close> loop over the rows read at the
  start. A rejection of the provider or of the repository leaves the loop, and
  \<^verbatim>\<open>execute\<close> rejects with it.
\<close>

fun executeLoop ::
  "'p WeatherProvider \<Rightarrow> int \<Rightarrow> AlertRecord list \<Rightarrow> 'p \<times> AlertRecord list \<Rightarrow> AlertRecord list \<Rightarrow>
   (Err + AlertRecord list) \<times> 'p \<times> AlertRecord list" where
  "executeLoop getRealtime now [] st triggeredAlerts = (Inr triggeredAlerts, st)"
| "executeLoop getRealtime now (alert # rest) st triggeredAlerts =
     (case (latitude alert, longitude alert) of
        (Some lat, Some lon) \<Rightarrow>
          (case getRealtime lat lon scheduled (fst st) of
             (Inl e, p') \<Rightarrow> (Inl e, p', snd st)
           | (Inr weatherData, p') \<Rightarrow>
               (let evaluation = evaluateAlertCondition (parameter alert) (operator alert)
                                   (threshold alert) (scheduledValues weatherData)
                in case updateAlertAfterEvaluation (alert_id alert) evaluation now (snd st) of
                     Inl e \<Rightarrow> (Inl e, p', snd st)
                   | Inr table' \<Rightarrow>
                       executeLoop getRealtime now rest (p', table')
                         (if triggered evaluation
                          then triggeredAlerts @ [alert\<lparr>lastValue := currentValue evaluation\<rparr>]
                          else triggeredAlerts)))
      | _ \<Rightarrow> executeLoop getRealtime now rest st triggeredAlerts)"

definition EvaluateAllAlertsUseCase_execute ::
  "'p WeatherProvider \<Rightarrow> int \<Rightarrow> 'p \<times> AlertRecord list \<Rightarrow> (Err + AlertRecord list) \<times> 'p \<times> AlertRecord list" where
  "EvaluateAllAlertsUseCase_execute getRealtime now st = executeLoop getRealtime now (snd st) st []"

text \<open>
  What the notification gateway was asked to send: the recipient and the alert the
  subject and body are rendered from.
\<close>

datatype Delivery = Email string AlertRecord | Sms string AlertRecord

text \<open>A \<^verbatim>\<open>string | null\<close> used as a condition: null and the empty string are falsy.\<close>

fun truthy :: "string option \<Rightarrow> bool" where
  "truthy None = False"
| "truthy (Some s) = (s \<noteq> [])"

definition sendNotification :: "AlertRecord \<Rightarrow> Delivery list" where
  "sendNotification alert =
     (if \<not> truthy (contactEmail alert) \<and> \<not> truthy (contactPhone alert) then []
      else (if truthy (contactEmail alert) then [Email (the (contactEmail alert)) alert] else [])
         @ (if truthy (contactPhone alert) then [Sms (the (contactPhone alert)) alert] else []))"

text \<open>
  The cron callback of \<^verbatim>\<open>AlertEvaluationScheduler.start\<close>: one sweep. A rejection of
  \<^verbatim>\<open>execute\<close> is caught and logged, and nothing is sent.
\<close>

definition schedulerTick ::
  "'p WeatherProvider \<Rightarrow> int \<Rightarrow> 'p \<times> AlertRecord list \<Rightarrow> Delivery list \<times> 'p \<times> AlertRecord list" where
  "schedulerTick getRealtime now st =
     (case EvaluateAllAlertsUseCase_execute getRealtime now st of
        (Inl e, st') \<Rightarrow> ([], st')
      | (Inr triggeredAlerts, st') \<Rightarrow> (concat (map sendNotification triggeredAlerts), st'))"

subsection \<open>circuit-breaker.ts\<close>

datatype CircuitState = CLOSED | OPEN | HALF_OPEN

record CircuitBreakerConfig =
  failureThreshold :: int
  recoveryTimeout :: int
  monitoringPeriod :: int
  minimumRequests :: int

record CircuitBreaker =
  state :: CircuitState
  failureCount :: int
  lastFailureTime :: int
  requestCount :: int
  windowStart :: int

text \<open>The field initialisers; \<open>now\<close> is the \<^verbatim>\<open>Date.now()\<close> of the construction.\<close>

definition newCircuitBreaker :: "int \<Rightarrow> CircuitBreaker" where
  "newCircuitBreaker now =
     \<lparr>state = CLOSED, failureCount = 0, lastFailureTime = 0, requestCount = 0, windowStart = now\<rparr>"

definition resetCounters :: "int \<Rightarrow> CircuitBreaker \<Rightarrow> CircuitBreaker" where
  "resetCounters now cb = cb\<lparr>failureCount := 0, requestCount := 0, windowStart := now\<rparr>"

definition shouldAttemptReset :: "CircuitBreakerConfig \<Rightarrow> int \<Rightarrow> CircuitBreaker \<Rightarrow> bool" where
  "shouldAttemptReset config now cb = (now - lastFailureTime cb \<ge> recoveryTimeout config)"

text \<open>\<^verbatim>\<open>shouldOpenCircuit\<close> answers and, when the window has passed, resets the counters.\<close>

definition shouldOpenCircuit :: "CircuitBreakerConfig \<Rightarrow> int \<Rightarrow> CircuitBreaker \<Rightarrow> bool \<times> CircuitBreaker" where
  "shouldOpenCircuit config now cb =
     (if now - windowStart cb > monitoringPeriod config
      then (False, (resetCounters now cb)\<lparr>windowStart := now\<rparr>)
      else (requestCount cb \<ge> minimumRequests config \<and> failureCount cb \<ge> failureThreshold config, cb))"

definition onSuccess :: "int \<Rightarrow> CircuitBreaker \<Rightarrow> CircuitBreaker" where
  "onSuccess now cb =
     (let cb1 = resetCounters now cb
      in if state cb1 = HALF_OPEN then cb1\<lparr>state := CLOSED\<rparr> else cb1)"

definition onFailure :: "CircuitBreakerConfig \<Rightarrow> int \<Rightarrow> CircuitBreaker \<Rightarrow> CircuitBreaker" where
  "onFailure config now cb =
     (let cb1 = cb\<lparr>failureCount := failureCount cb + 1,
                   requestCount := requestCount cb + 1,
                   lastFailureTime := now\<rparr>
      in if state cb1 = HALF_OPEN then cb1\<lparr>state := OPEN\<rparr>
         else (case shouldOpenCircuit config now cb1 of
                 (True, cb2) \<Rightarrow> cb2\<lparr>state := OPEN\<rparr>
               | (False, cb2) \<Rightarrow> cb2))"

text \<open>The check at the head of \<^verbatim>\<open>execute\<close>, before the operation is called.\<close>

definition enter :: "CircuitBreakerConfig \<Rightarrow> int \<Rightarrow> CircuitBreaker \<Rightarrow> Err + CircuitBreaker" where
  "enter config now cb =
     (if state cb = OPEN
      then (if shouldAttemptReset config now cb then Inr (cb\<lparr>state := HALF_OPEN\<rparr>)
            else Inl (CircuitOpen (lastFailureTime cb + recoveryTimeout config)))
      else Inr cb)"

text \<open>
  \<^verbatim>\<open>execute\<close>, for a call during which no other call of \<^verbatim>\<open>execute\<close> is admitted or
  settles: the check at the head, the awaited operation, and \<^verbatim>\<open>onSuccess\<close> or
  \<^verbatim>\<open>onFailure\<close>. The operation runs in a world \<open>'w\<close>, which it may change and whose
  clock \<^verbatim>\<open>Date.now()\<close> reads: a rejected call leaves the world as it was, because the
  operation is not called.
\<close>

definition CircuitBreaker_execute ::
  "CircuitBreakerConfig \<Rightarrow> ('w \<Rightarrow> int) \<Rightarrow> ('w \<Rightarrow> (Err + 'a) \<times> 'w) \<Rightarrow> CircuitBreaker \<times> 'w \<Rightarrow>
   (Err + 'a) \<times> CircuitBreaker \<times> 'w" where
  "CircuitBreaker_execute config Date_now operation st =
     (case enter config (Date_now (snd st)) (fst st) of
        Inl e \<Rightarrow> (Inl e, st)
      | Inr cb1 \<Rightarrow>
          (case operation (snd st) of
             (Inr result, w') \<Rightarrow> (Inr result, onSuccess (Date_now w') cb1, w')
           | (Inl error, w') \<Rightarrow> (Inl error, onFailure config (Date_now w') cb1, w')))"

text \<open>
  Calls of \<^verbatim>\<open>execute\<close> may overlap: the operation is awaited, and while it is pending
  other calls are admitted and settle. The breaker then goes through a sequence of
  steps, each run to completion: the check at the head of \<^verbatim>\<open>execute\<close> for a call
  made at some time (\<open>Admit\<close>; a rejected call leaves the breaker as it is), and, for
  a call that was admitted, \<^verbatim>\<open>onSuccess\<close> (\<open>Succeed\<close>) or \<^verbatim>\<open>onFailure\<close> (\<open>Fail\<close>) at
  the time its operation settles. A list of such steps need not pair every settlement
  with an admission, so the lists cover every interleaving of overlapping calls, and
  more.
\<close>

datatype BreakerEvent = Admit int | Succeed int | Fail int

fun breakerStep :: "CircuitBreakerConfig \<Rightarrow> BreakerEvent \<Rightarrow> CircuitBreaker \<Rightarrow> CircuitBreaker" where
  "breakerStep config (Admit now) cb = (case enter config now cb of Inl e \<Rightarrow> cb | Inr cb1 \<Rightarrow> cb1)"
| "breakerStep config (Succeed now) cb = onSuccess now cb"
| "breakerStep config (Fail now) cb = onFailure config now cb"

definition breakerRun :: "CircuitBreakerConfig \<Rightarrow> BreakerEvent list \<Rightarrow> CircuitBreaker \<Rightarrow> CircuitBreaker" where
  "breakerRun config events cb = fold (breakerStep config) events cb"




subsection \<open>tomorrow-weather.provider.ts\<close>

datatype Units = metric | imperial

record ProviderConfig =
  units :: Units
  cacheTtlMs :: int

text \<open>
  \<^verbatim>\<open>x.toFixed(3)\<close>: the sign and the number of thousandths nearest to \<open>\<bar>x\<bar>\<close>, the
  larger one on a tie. Two coordinates have the same rendering exactly when these agree.
\<close>

definition toFixed3 :: "real \<Rightarrow> bool \<times> int" where
  "toFixed3 x = (x < 0, \<lfloor>\<bar>x\<bar> * 1000 + 1/2\<rfloor>)"

type_synonym Key = "(bool \<times> int) \<times> (bool \<times> int) \<times> Units"

definition cacheKey :: "ProviderConfig \<Rightarrow> real \<Rightarrow> real \<Rightarrow> Key" where
  "cacheKey cfg lat lon = (toFixed3 lat, toFixed3 lon, units cfg)"

record CacheEntry =
  entry_value :: RealtimeWeatherData
  expiresAt :: int

text \<open>
  The fields of the provider that its own code changes. \<open>inFlight\<close> maps a key to the
  pending request registered for it; \<open>remainingCalls\<close> is \<open>None\<close> for the initial
  \<^verbatim>\<open>Infinity\<close>. The circuit breaker is kept beside this record.
\<close>

record Provider =
  cache :: "Key \<rightharpoonup> CacheEntry"
  inFlight :: "Key \<rightharpoonup> nat"
  rateLimitResetTime :: int
  remainingCalls :: "int option"

definition newProvider :: Provider where
  "newProvider = \<lparr>cache = Map.empty, inFlight = Map.empty, rateLimitResetTime = 0, remainingCalls = None\<rparr>"

text \<open>The values of an upstream body, \<^verbatim>\<open>data?.data?.values ?? {}\<close>.\<close>

record UpstreamValues =
  v_temperature :: "real option"
  v_windSpeed :: "real option"
  v_rainIntensity :: "real option"
  v_snowIntensity :: "real option"
  v_sleetIntensity :: "real option"
  v_freezingRainIntensity :: "real option"

text \<open>
  The \<^verbatim>\<open>retry-after\<close> header of an error response: absent (or empty), a text that
  \<^verbatim>\<open>Number\<close> reads as a finite number, or any other text.
\<close>

datatype RetryAfter = NoRetryAfter | Seconds real | NotANumber

text \<open>
  What one \<^verbatim>\<open>axios.get\<close> settles with: a response with its values and the parsed
  remaining-calls header, or an error. An error with a response has a status; an error
  without one (a timeout, a network failure) has none.
\<close>

datatype AxiosOutcome =
    Response UpstreamValues "int option"
  | Failure "nat option" RetryAfter

text \<open>
  The world outside the provider: the clock, the outcome and settling time of every
  upstream call still to come, the values \<^verbatim>\<open>Math.random()\<close> will return, what the
  Redis cache answers for a key (\<open>None\<close> when there is no Redis, no entry, or the
  lookup fails), and a log of the upstream calls made and the delays slept.
\<close>

record World =
  clock :: int
  upstream :: "nat \<Rightarrow> AxiosOutcome \<times> int"
  calls :: nat
  random :: "nat \<Rightarrow> real"
  draws :: nat
  redisGet :: "Key \<Rightarrow> RealtimeWeatherData option"
  sleeps :: "real list"

definition axios_get :: "World \<Rightarrow> AxiosOutcome \<times> World" where
  "axios_get w =
     (let (outcome, settledAt) = upstream w (calls w)
      in (outcome, w\<lparr>clock := settledAt, calls := calls w + 1\<rparr>))"

definition Math_random :: "World \<Rightarrow> real \<times> World" where
  "Math_random w = (random w (draws w), w\<lparr>draws := draws w + 1\<rparr>)"

definition sleep :: "real \<Rightarrow> World \<Rightarrow> World" where
  "sleep delayMs w = w\<lparr>sleeps := sleeps w @ [delayMs]\<rparr>"

definition Math_round :: "real \<Rightarrow> real" where
  "Math_round x = of_int \<lfloor>x + 1/2\<rfloor>"

text \<open>The demo observation both rate-limit branches build, with its \<^verbatim>\<open>raw\<close> marker.\<close>

definition demoData :: "Raw \<Rightarrow> World \<Rightarrow> RealtimeWeatherData \<times> World" where
  "demoData marker w =
     (let (r1, w1) = Math_random w;
          (r2, w2) = Math_random w1;
          (r3, w3) = Math_random w2;
          (precipitation, w4) =
             (if r3 > 1/2
              then (let (r4, w') = Math_random w3 in (Math_round ((2/10 + r4 * 6) * 10) / 10, w'))
              else (0, w3))
      in (\<lparr>temperatureC = Some (Math_round ((20 + r1 * 15) * 10) / 10),
           windSpeedMps = Some (Math_round ((1 + r2 * 8) * 10) / 10),
           precipitationMmHr = Some precipitation,
           raw = marker\<rparr>, w4))"

definition isDemo :: "RealtimeWeatherData \<Rightarrow> bool" where
  "isDemo d = (case raw d of UpstreamBody \<Rightarrow> False | DemoCooldown la lo \<Rightarrow> True | DemoRateLimited la lo \<Rightarrow> True)"

definition maxAttempts :: nat where
  "maxAttempts = 4"

definition isRetryable :: "nat option \<Rightarrow> bool" where
  "isRetryable status = (status = Some 429 \<or> (case status of None \<Rightarrow> False | Some s \<Rightarrow> s \<ge> 500 \<and> s < 600))"

text \<open>The delay before the next attempt, \<^verbatim>\<open>// Compute backoff\<close>.\<close>

definition backoff :: "RetryAfter \<Rightarrow> nat \<Rightarrow> World \<Rightarrow> real \<times> World" where
  "backoff retryAfter attempt w =
     (case retryAfter of
        Seconds parsed \<Rightarrow> (parsed * 1000, w)
      | NotANumber \<Rightarrow> (2000, w)
      | NoRetryAfter \<Rightarrow>
          (let base = 400 * 2 ^ (attempt - 1);
               (r, w') = Math_random w;
               jitter = of_int \<lfloor>r * 250\<rfloor>
           in (base + jitter, w')))"

definition mapResponse :: "UpstreamValues \<Rightarrow> RealtimeWeatherData" where
  "mapResponse values =
     \<lparr>temperatureC = v_temperature values,
      windSpeedMps = v_windSpeed values,
      precipitationMmHr = Some (nullish (v_rainIntensity values) 0 + nullish (v_snowIntensity values) 0
                               + nullish (v_sleetIntensity values) 0 + nullish (v_freezingRainIntensity values) 0),
      raw = UpstreamBody\<rparr>"

text \<open>
  The operation handed to the circuit breaker: the \<^verbatim>\<open>for\<close> loop over the attempts.
  The writes to Redis are fire-and-forget calls on the external cache and change
  nothing here.
\<close>

function attemptLoop ::
  "ProviderConfig \<Rightarrow> real \<Rightarrow> real \<Rightarrow> nat \<Rightarrow> Provider \<times> World \<Rightarrow> (Err + RealtimeWeatherData) \<times> Provider \<times> World" where
  "attemptLoop cfg lat lon attempt st =
     (if attempt > maxAttempts then (Inl RetryExhausted, st)
      else
        (let key = cacheKey cfg lat lon;
             (outcome, w1) = axios_get (snd st)
         in case outcome of
              Response values remaining \<Rightarrow>
                (let p1 = (case remaining of None \<Rightarrow> fst st | Some r \<Rightarrow> (fst st)\<lparr>remainingCalls := Some r\<rparr>);
                     result = mapResponse values
                 in (Inr result,
                     p1\<lparr>cache := (cache p1)(key \<mapsto> \<lparr>entry_value = result, expiresAt = clock w1 + cacheTtlMs cfg\<rparr>)\<rparr>,
                     w1))
            | Failure status retryAfter \<Rightarrow>
                (if \<not> isRetryable status \<or> attempt = maxAttempts
                 then (if status = Some 429
                       then (let p1 = (fst st)\<lparr>rateLimitResetTime := clock w1 + 60 * 1000, remainingCalls := Some 0\<rparr>;
                                 (mockResult, w2) = demoData (DemoRateLimited lat lon) w1
                             in (Inr mockResult,
                                 p1\<lparr>cache := (cache p1)(key \<mapsto> \<lparr>entry_value = mockResult, expiresAt = clock w2 + cacheTtlMs cfg\<rparr>)\<rparr>,
                                 w2))
                       else (Inl (AxiosError status), fst st, w1))
                 else (let (delayMs, w2) = backoff retryAfter attempt w1
                       in attemptLoop cfg lat lon (attempt + 1) (fst st, sleep delayMs w2)))))"
  by pat_completeness auto
termination
  by (relation "measure (\<lambda>(cfg, lat, lon, attempt, st). maxAttempts + 1 - attempt)") auto

declare attemptLoop.simps [simp del]

definition breakerConfig :: CircuitBreakerConfig where
  "breakerConfig = \<lparr>failureThreshold = 3, recoveryTimeout = 30000, monitoringPeriod = 60000, minimumRequests = 2\<rparr>"

text \<open>
  What a caller of \<^verbatim>\<open>getRealtime\<close> gets: a settled promise, or the pending request
  that was already registered for the key.
\<close>

datatype Reply = Settled "Err + RealtimeWeatherData" | Existing nat

definition cacheHit :: "Provider \<Rightarrow> Key \<Rightarrow> int \<Rightarrow> RealtimeWeatherData option" where
  "cacheHit p key now =
     (case cache p key of
        None \<Rightarrow> None
      | Some hit \<Rightarrow> if expiresAt hit > now then Some (entry_value hit) else None)"

text \<open>
  The checks at the head of \<^verbatim>\<open>getRealtime\<close>, in the order of the source: the
  Redis answer, the in-memory cache, the pending request for the key, the cooldown.
\<close>

datatype Lookup = Hit RealtimeWeatherData | Pending nat | Cooldown | Miss

definition lookup :: "Provider \<Rightarrow> Key \<Rightarrow> int \<Rightarrow> RealtimeWeatherData option \<Rightarrow> Lookup" where
  "lookup p key now redisAnswer =
     (case redisAnswer of
        Some cached \<Rightarrow> Hit cached
      | None \<Rightarrow>
          (case cacheHit p key now of
             Some v \<Rightarrow> Hit v
           | None \<Rightarrow>
               (case inFlight p key of
                  Some existing \<Rightarrow> Pending existing
                | None \<Rightarrow> if now < rateLimitResetTime p then Cooldown else Miss)))"

text \<open>The branch that serves demo data during the cooldown and caches it.\<close>

definition serveCooldown :: "ProviderConfig \<Rightarrow> real \<Rightarrow> real \<Rightarrow> int \<Rightarrow> Provider \<times> World \<Rightarrow> RealtimeWeatherData \<times> Provider \<times> World" where
  "serveCooldown cfg lat lon now st =
     (let (mockResult, w1) = demoData (DemoCooldown lat lon) (snd st)
      in (mockResult,
          (fst st)\<lparr>cache := (cache (fst st))(cacheKey cfg lat lon \<mapsto>
                      \<lparr>entry_value = mockResult, expiresAt = now + cacheTtlMs cfg\<rparr>)\<rparr>,
          w1))"

text \<open>
  \<^verbatim>\<open>TomorrowWeatherProvider.getRealtime\<close>, run from the call to the settlement of
  its promise with no other call in between. The new request is registered in
  \<open>inFlight\<close> while it runs and removed when it settles.
\<close>

definition getRealtime ::
  "ProviderConfig \<Rightarrow> real \<Rightarrow> real \<Rightarrow> CircuitBreaker \<times> Provider \<times> World \<Rightarrow> Reply \<times> CircuitBreaker \<times> Provider \<times> World" where
  "getRealtime cfg lat lon st =
     (let key = cacheKey cfg lat lon;
          cb = fst st; p = fst (snd st); w = snd (snd st);
          now = clock w
      in case lookup p key now (redisGet w key) of
           Hit v \<Rightarrow> (Settled (Inr v), st)
         | Pending existing \<Rightarrow> (Existing existing, st)
         | Cooldown \<Rightarrow>
             (let (mockResult, p', w1) = serveCooldown cfg lat lon now (p, w)
              in (Settled (Inr mockResult), cb, p', w1))
         | Miss \<Rightarrow>
             (let (r, cb', p', w') =
                   CircuitBreaker_execute breakerConfig (\<lambda>pw. clock (snd pw))
                     (attemptLoop cfg lat lon 1) (cb, p, w)
              in (Settled r, cb', p'\<lparr>inFlight := (inFlight p')(key := None)\<rparr>, w')))"

subsection \<open>Sample inputs\<close>


text \<open>An alert created with a city name and no coordinates.\<close>

definition cityOnlyAlert :: AlertCommon where
  "cityOnlyAlert =
     \<lparr>alert_id = ''a1'', name = Some ''Hot Boston'', cityName = Some ''Boston'',
      latitude = None, longitude = None,
      lastValue = None, lastState = None, lastEvaluatedAt = None\<rparr>"


text \<open>An observation without a temperature and without a wind speed.\<close>

definition noReadings :: RealtimeWeatherData where
  "noReadings = \<lparr>temperatureC = None, windSpeedMps = None, precipitationMmHr = None, raw = UpstreamBody\<rparr>"

definition brokerUp :: Kafka where
  "brokerUp = \<lparr>isConnected = True, sendRejects = False, weatherUpdates = [], alertEvaluations = [], notifications = []\<rparr>"

subsection \<open>Scenarios for the circuit breaker\<close>



definition opened :: CircuitBreaker where
  "opened = \<lparr>state = OPEN, failureCount = 3, lastFailureTime = 3000, requestCount = 3, windowStart = 0\<rparr>"

subsection \<open>Scenarios for the provider\<close>

definition metricConfig :: ProviderConfig where
  "metricConfig = \<lparr>units = metric, cacheTtlMs = 300000\<rparr>"

definition clearSky :: UpstreamValues where
  "clearSky = \<lparr>v_temperature = Some 21, v_windSpeed = Some 3, v_rainIntensity = Some 0,
                v_snowIntensity = None, v_sleetIntensity = None, v_freezingRainIntensity = None\<rparr>"

text \<open>A world whose first upstream call times out after 5 s and whose later calls succeed.\<close>

definition timeoutThenFine :: World where
  "timeoutThenFine =
     \<lparr>clock = 0,
      upstream = (\<lambda>n. if n = 0 then (Failure None NoRetryAfter, 5000) else (Response clearSky None, 5100)),
      calls = 0, random = (\<lambda>n. 0), draws = 0, redisGet = (\<lambda>k. None), sleeps = []\<rparr>"

text \<open>A world whose first upstream call answers 503 and whose later calls answer 404.\<close>

definition unavailableThenNotFound :: World where
  "unavailableThenNotFound =
     \<lparr>clock = 0,
      upstream = (\<lambda>n. if n = 0 then (Failure (Some 503) NoRetryAfter, 100) else (Failure (Some 404) NoRetryAfter, 700)),
      calls = 0, random = (\<lambda>n. 0), draws = 0, redisGet = (\<lambda>k. None), sleeps = []\<rparr>"

text \<open>A world whose upstream always answers 500.\<close>

definition alwaysServerError :: World where
  "alwaysServerError =
     \<lparr>clock = 0, upstream = (\<lambda>n. (Failure (Some 500) NoRetryAfter, 100)),
      calls = 0, random = (\<lambda>n. 0), draws = 0, redisGet = (\<lambda>k. None), sleeps = []\<rparr>"

text \<open>
  Outcomes of an upstream call: an error response whose status is 429 or 5xx, and an
  error response whose status is 429.
\<close>

definition retryableFailure :: "AxiosOutcome \<Rightarrow> bool" where
  "retryableFailure outcome =
     (case outcome of Response vals remaining \<Rightarrow> False | Failure status retryAfter \<Rightarrow> isRetryable status)"

definition rateLimited :: "AxiosOutcome \<Rightarrow> bool" where
  "rateLimited outcome =
     (case outcome of Response vals remaining \<Rightarrow> False | Failure status retryAfter \<Rightarrow> status = Some 429)"

text \<open>
  The upstream answers the next three calls with retryable failures and the fourth
  with 429: all the attempts of one request are used up, the last one on a rate limit.
\<close>

definition exhaustedOn429 :: "World \<Rightarrow> bool" where
  "exhaustedOn429 w =
     (retryableFailure (fst (upstream w (calls w)))
      \<and> retryableFailure (fst (upstream w (calls w + 1)))
      \<and> retryableFailure (fst (upstream w (calls w + 2)))
      \<and> rateLimited (fst (upstream w (calls w + 3))))"

text \<open>
  A world whose first upstream call succeeds and whose later calls all answer 429, and
  the provider in it: after a fetch for (42, -71), and after a following fetch for
  (0, 0), which uses up its attempts on 429.
\<close>

definition fineThenRateLimited :: World where
  "fineThenRateLimited =
     \<lparr>clock = 0,
      upstream = (\<lambda>n. if n = 0 then (Response clearSky None, 100) else (Failure (Some 429) NoRetryAfter, 900)),
      calls = 0, random = (\<lambda>n. 0), draws = 0, redisGet = (\<lambda>k. None), sleeps = []\<rparr>"

definition afterFetch :: "CircuitBreaker \<times> Provider \<times> World" where
  "afterFetch = snd (getRealtime metricConfig 42 (-71) (newCircuitBreaker 0, newProvider, fineThenRateLimited))"

definition afterRateLimit :: "CircuitBreaker \<times> Provider \<times> World" where
  "afterRateLimit = snd (getRealtime metricConfig 0 0 afterFetch)"

subsection \<open>Scenarios for the evaluation engine\<close>

text \<open>
  A row of the repository (temperature above 30, at (42, -71), with an email contact),
  an observation at its location, and a provider that always resolves with one
  observation.
\<close>

definition hotRecord :: AlertRecord where
  "hotRecord =
     \<lparr>alert_id = ''hot'', name = Some ''Hot Boston'', cityName = None,
      latitude = Some 42, longitude = Some (-71),
      lastValue = None, lastState = None, lastEvaluatedAt = None,
      parameter = TEMPERATURE, operator = GT, threshold = 30,
      contactEmail = Some ''user@example.com'', contactPhone = None\<rparr>"

definition observed :: "real \<Rightarrow> WeatherEventData" where
  "observed t =
     \<lparr>temperatureC = Some t, windSpeedMps = Some 3, precipitationMmHr = None,
      ev_latitude = 42, ev_longitude = -71, timestamp = 0, source = api\<rparr>"

definition steady :: "RealtimeWeatherData \<Rightarrow> unit WeatherProvider" where
  "steady weatherData lat lon src p = (Inr weatherData, p)"

definition heat :: RealtimeWeatherData where
  "heat = \<lparr>temperatureC = Some 35, windSpeedMps = Some 3, precipitationMmHr = Some 0, raw = UpstreamBody\<rparr>"

text \<open>The row after a sweep at 1000 ms that has read 35 degrees.\<close>

definition hotTriggered :: AlertRecord where
  "hotTriggered = hotRecord\<lparr>lastValue := Some 35, lastState := Some True, lastEvaluatedAt := Some 1000\<rparr>"

text \<open>
  The table after the write of the specification: the row with the given id carries the
  evaluation's value and state and the time of the write, every other row is unchanged.
\<close>

definition written :: "string \<Rightarrow> Evaluation \<Rightarrow> int \<Rightarrow> ('z AlertCommon_scheme) list \<Rightarrow> ('z AlertCommon_scheme) list" where
  "written alertId ev now table =
     map (\<lambda>row. if alert_id row = alertId
                 then row\<lparr>lastValue := currentValue ev, lastState := Some (triggered ev), lastEvaluatedAt := Some now\<rparr>
                 else row) table"

text \<open>
  Objects of the shape \<^verbatim>\<open>evaluateAlertWithEvent\<close> is written for, with a lower-case
  parameter name and the threshold in \<^verbatim>\<open>value\<close>: one for the row above, and one whose
  row has been deleted since the rows were read. The repository returns no such
  object.
\<close>

definition hotAlert :: AlertAny where
  "hotAlert =
     \<lparr>alert_id = ''hot'', name = Some ''Hot Boston'', cityName = None,
      latitude = Some 42, longitude = Some (-71),
      lastValue = None, lastState = None, lastEvaluatedAt = None,
      any_parameter = ''temperature'', any_operator = GT, any_value = Some 30\<rparr>"

definition deletedAlert :: AlertAny where
  "deletedAlert = hotAlert\<lparr>alert_id := ''gone''\<rparr>"

subsection \<open>Sequences of evaluations\<close>

text \<open>
  The consumer of the alert-evaluation topic: the events that a handler run has added
  to the topic are delivered, each once, to \<^verbatim>\<open>handleAlertEvaluation\<close>.
\<close>

definition handlePublished :: "Kafka \<Rightarrow> int \<Rightarrow> Kafka \<Rightarrow> Kafka" where
  "handlePublished before now k =
     fold (\<lambda>alertData. handleAlertEvaluation alertData now)
          (drop (length (alertEvaluations before)) (alertEvaluations k)) k"

text \<open>
  One weather event on the event-driven path, from \<^verbatim>\<open>handleWeatherUpdate\<close> to the
  notifications, and a sequence of them.
\<close>

definition processWeatherEvent :: "WeatherEventData \<Rightarrow> int \<Rightarrow> AlertRecord list \<times> Kafka \<Rightarrow> AlertRecord list \<times> Kafka" where
  "processWeatherEvent weatherData now st =
     (let (results, table', k') = handleWeatherUpdate weatherData now now st
      in (table', handlePublished (snd st) now k'))"

fun eventPath :: "WeatherEventData list \<Rightarrow> int \<Rightarrow> AlertRecord list \<times> Kafka \<Rightarrow> AlertRecord list \<times> Kafka" where
  "eventPath [] now st = st"
| "eventPath (weatherData # rest) now st = eventPath rest now (processWeatherEvent weatherData now st)"

text \<open>
  The alert a delivery is about, and whether an alert's condition holds of the value
  it carries.
\<close>

fun deliveredFor :: "Delivery \<Rightarrow> AlertRecord" where
  "deliveredFor (Email recipient alert) = alert"
| "deliveredFor (Sms recipient alert) = alert"

definition conditionHolds :: "AlertRecord \<Rightarrow> bool" where
  "conditionHolds alert =
     (case lastValue alert of None \<Rightarrow> False | Some v \<Rightarrow> compare_spec (operator alert) v (threshold alert))"

text \<open>
  A row with what the evaluations have written to it taken away, and a delivery about
  such a row.
\<close>

definition neverEvaluated :: "AlertRecord \<Rightarrow> AlertRecord" where
  "neverEvaluated row = row\<lparr>lastValue := None, lastState := None, lastEvaluatedAt := None\<rparr>"

fun aboutNeverEvaluated :: "Delivery \<Rightarrow> Delivery" where
  "aboutNeverEvaluated (Email recipient alert) = Email recipient (neverEvaluated alert)"
| "aboutNeverEvaluated (Sms recipient alert) = Sms recipient (neverEvaluated alert)"

subsection \<open>Scenarios for failures during a batch\<close>

text \<open>
  A second row, and a provider whose fetch rejects with a 400 for latitude 42 and
  resolves elsewhere.
\<close>

definition nycRecord :: AlertRecord where
  "nycRecord =
     \<lparr>alert_id = ''nyc'', name = Some ''Hot New York'', cityName = None,
      latitude = Some 40, longitude = Some (-74),
      lastValue = None, lastState = None, lastEvaluatedAt = None,
      parameter = TEMPERATURE, operator = GT, threshold = 30,
      contactEmail = Some ''user@example.com'', contactPhone = None\<rparr>"

definition failsAtLatitude42 :: "unit WeatherProvider" where
  "failsAtLatitude42 lat lon src p = (if lat = 42 then Inl (AxiosError (Some 400)) else Inr heat, p)"

subsection \<open>Calls of getRealtime that overlap\<close>

text \<open>
  \<^verbatim>\<open>getRealtime\<close> is an \<^verbatim>\<open>async\<close> method: between the call and the settlement of the
  request it starts, other calls may run. JavaScript runs each turn to completion, so
  a call is cut in two steps here. The first step, \<open>call\<close>, is the synchronous
  stretch from the cache check to \<^verbatim>\<open>this.inFlight.set(key, requestPromise)\<close>; it
  begins once the answer of Redis is known. The second step, \<open>finish\<close>, is the
  settlement of the request: the outcome of the retry loop, the bookkeeping of the
  breaker, and the \<^verbatim>\<open>finally\<close> handler that removes the key from \<open>inFlight\<close>. The
  retry loop changes the provider only in its last turn, so it is run in \<open>finish\<close>.

  A promise is named by a number. \<open>requests\<close> holds the pending requests with their
  arguments, \<open>settled\<close> the outcome of those that have settled. A call that the open
  breaker rejects is recorded as settled at once: its \<^verbatim>\<open>finally\<close> handler runs
  before any other turn.
\<close>

record System =
  breaker :: CircuitBreaker
  provider :: Provider
  requests :: "nat \<rightharpoonup> real \<times> real"
  nextId :: nat
  settled :: "nat \<rightharpoonup> Err + RealtimeWeatherData"

definition initial :: "int \<Rightarrow> System" where
  "initial t0 = \<lparr>breaker = newCircuitBreaker t0, provider = newProvider, requests = Map.empty,
                  nextId = 0, settled = Map.empty\<rparr>"

definition call :: "ProviderConfig \<Rightarrow> real \<Rightarrow> real \<Rightarrow> World \<Rightarrow> System \<Rightarrow> Reply \<times> System" where
  "call cfg lat lon w s =
     (let key = cacheKey cfg lat lon;
          now = clock w
      in case lookup (provider s) key now (redisGet w key) of
           Hit v \<Rightarrow> (Settled (Inr v), s)
         | Pending existing \<Rightarrow> (Existing existing, s)
         | Cooldown \<Rightarrow>
             (let (mockResult, p', w1) = serveCooldown cfg lat lon now (provider s, w)
              in (Settled (Inr mockResult), s\<lparr>provider := p'\<rparr>))
         | Miss \<Rightarrow>
             (case enter breakerConfig now (breaker s) of
                Inl e \<Rightarrow> (Settled (Inl e), s)
              | Inr cb1 \<Rightarrow>
                  (Existing (nextId s),
                   s\<lparr>breaker := cb1,
                     provider := (provider s)\<lparr>inFlight := (inFlight (provider s))(key \<mapsto> nextId s)\<rparr>,
                     requests := (requests s)(nextId s \<mapsto> (lat, lon)),
                     nextId := nextId s + 1\<rparr>)))"

definition finish :: "ProviderConfig \<Rightarrow> nat \<Rightarrow> World \<Rightarrow> System \<Rightarrow> System" where
  "finish cfg pid w s =
     (case requests s pid of
        None \<Rightarrow> s
      | Some (lat, lon) \<Rightarrow>
          (let (r, p', w') = attemptLoop cfg lat lon 1 (provider s, w);
               cb' = (case r of Inr result \<Rightarrow> onSuccess (clock w') (breaker s)
                              | Inl error \<Rightarrow> onFailure breakerConfig (clock w') (breaker s))
           in s\<lparr>breaker := cb',
                provider := p'\<lparr>inFlight := (inFlight p')(cacheKey cfg lat lon := None)\<rparr>,
                requests := (requests s)(pid := None),
                settled := (settled s)(pid \<mapsto> r)\<rparr>))"

text \<open>
  A schedule is a list of events, in any order: a call with its arguments, or the
  settlement of a request. Each event comes with the world it happens in.
\<close>

datatype Event = Call real real World | Finish nat World

fun step :: "ProviderConfig \<Rightarrow> Event \<Rightarrow> System \<Rightarrow> System" where
  "step cfg (Call lat lon w) s = snd (call cfg lat lon w s)"
| "step cfg (Finish pid w) s = finish cfg pid w s"

definition run :: "ProviderConfig \<Rightarrow> Event list \<Rightarrow> int \<Rightarrow> System" where
  "run cfg events t0 = fold (step cfg) events (initial t0)"

text \<open>
  The invariant of the schedules: the pending requests and the entries of \<open>inFlight\<close>
  are the same, one per key, and a settled request is no longer pending.
\<close>

definition registered :: "ProviderConfig \<Rightarrow> System \<Rightarrow> bool" where
  "registered cfg s =
     ((\<forall>pid lat lon. requests s pid = Some (lat, lon) \<longrightarrow> inFlight (provider s) (cacheKey cfg lat lon) = Some pid)
      \<and> (\<forall>key pid. inFlight (provider s) key = Some pid \<longrightarrow>
            (\<exists>lat lon. requests s pid = Some (lat, lon) \<and> cacheKey cfg lat lon = key))
      \<and> (\<forall>pid. requests s pid \<noteq> None \<longrightarrow> pid < nextId s)
      \<and> (\<forall>pid. settled s pid \<noteq> None \<longrightarrow> pid < nextId s \<and> requests s pid = None))"

subsection \<open>Scenarios for overlapping calls\<close>

text \<open>A world at time \<open>t\<close> in which the upstream answers after 100 ms, without Redis.\<close>

definition worldAt :: "int \<Rightarrow> World" where
  "worldAt t =
     \<lparr>clock = t, upstream = (\<lambda>n. (Response clearSky None, t + 100)),
      calls = 0, random = (\<lambda>n. 0), draws = 0, redisGet = (\<lambda>k. None), sleeps = []\<rparr>"

text \<open>One call for the location (42, -71) at time 0; the same, with its request settled at time 20.\<close>

definition oneCall :: System where
  "oneCall = run metricConfig [Call 42 (-71) (worldAt 0)] 0"

definition callSettled :: System where
  "callSettled = run metricConfig [Call 42 (-71) (worldAt 0), Finish 0 (worldAt 20)] 0"

section \<open>Properties\<close>

subsection \<open>The condition evaluator\<close>

text \<open>
  Claim C6. \<^verbatim>\<open>evaluateAlertCondition\<close> returns as \<open>currentValue\<close> the observation field
  that the parameter selects: the temperature for \<open>TEMPERATURE\<close>, the wind speed for
  \<open>WIND_SPEED\<close>, the precipitation for \<open>PRECIPITATION\<close>, whatever the other two
  fields hold. When that field is null the result is \<open>triggered = False\<close> with
  \<open>currentValue = None\<close>; otherwise \<open>triggered\<close> is the comparison of the value with
  the threshold under the operator. In particular \<open>GT\<close> is strict: a value equal to
  the threshold does not trigger, a value above it does. The function reads nothing but
  its four arguments, which is why it is embedded as a function of them.
\<close>

theorem evaluateAlertCondition_correct:
  "evaluateAlertCondition TEMPERATURE op t \<lparr>temperatureC = a, windSpeedMps = b, precipitationMmHr = c\<rparr>
     = \<lparr>currentValue = a, triggered = (case a of None \<Rightarrow> False | Some v \<Rightarrow> compare_spec op v t)\<rparr>
   \<and> evaluateAlertCondition WIND_SPEED op t \<lparr>temperatureC = a, windSpeedMps = b, precipitationMmHr = c\<rparr>
     = \<lparr>currentValue = b, triggered = (case b of None \<Rightarrow> False | Some v \<Rightarrow> compare_spec op v t)\<rparr>
   \<and> evaluateAlertCondition PRECIPITATION op t \<lparr>temperatureC = a, windSpeedMps = b, precipitationMmHr = c\<rparr>
     = \<lparr>currentValue = c, triggered = (case c of None \<Rightarrow> False | Some v \<Rightarrow> compare_spec op v t)\<rparr>
   \<and> (currentValue (evaluateAlertCondition p op t vs) = None
        \<longrightarrow> evaluateAlertCondition p op t vs = \<lparr>currentValue = None, triggered = False\<rparr>)
   \<and> (\<forall>v. currentValue (evaluateAlertCondition p op t vs) = Some v
        \<longrightarrow> triggered (evaluateAlertCondition p op t vs) = compare_spec op v t)
   \<and> (currentValue (evaluateAlertCondition p GT t vs) = Some t
        \<longrightarrow> \<not> triggered (evaluateAlertCondition p GT t vs))
   \<and> (\<forall>v. currentValue (evaluateAlertCondition p GT t vs) = Some v \<and> t < v
        \<longrightarrow> triggered (evaluateAlertCondition p GT t vs))"
proof -
  have fields:
    "evaluateAlertCondition TEMPERATURE op t \<lparr>temperatureC = a, windSpeedMps = b, precipitationMmHr = c\<rparr>
       = \<lparr>currentValue = a, triggered = (case a of None \<Rightarrow> False | Some v \<Rightarrow> compare_spec op v t)\<rparr>"
    "evaluateAlertCondition WIND_SPEED op t \<lparr>temperatureC = a, windSpeedMps = b, precipitationMmHr = c\<rparr>
       = \<lparr>currentValue = b, triggered = (case b of None \<Rightarrow> False | Some v \<Rightarrow> compare_spec op v t)\<rparr>"
    "evaluateAlertCondition PRECIPITATION op t \<lparr>temperatureC = a, windSpeedMps = b, precipitationMmHr = c\<rparr>
       = \<lparr>currentValue = c, triggered = (case c of None \<Rightarrow> False | Some v \<Rightarrow> compare_spec op v t)\<rparr>"
    by (cases op; simp split: option.splits)+
  have rest:
    "currentValue (evaluateAlertCondition p op' t vs) = None
        \<longrightarrow> evaluateAlertCondition p op' t vs = \<lparr>currentValue = None, triggered = False\<rparr>"
    "\<forall>v. currentValue (evaluateAlertCondition p op' t vs) = Some v
        \<longrightarrow> triggered (evaluateAlertCondition p op' t vs) = compare_spec op' v t" for op'
    by (cases op'; cases "valueMap vs p"; simp)+
  from rest(2) [of GT] have strict:
    "currentValue (evaluateAlertCondition p GT t vs) = Some t \<longrightarrow> \<not> triggered (evaluateAlertCondition p GT t vs)"
    "\<forall>v. currentValue (evaluateAlertCondition p GT t vs) = Some v \<and> t < v
        \<longrightarrow> triggered (evaluateAlertCondition p GT t vs)"
    by (auto simp del: evaluateAlertCondition.simps)
  from fields rest [of op] strict show ?thesis by blast
qed

text \<open>
  The round trip of the specification (threshold 30, \<open>GT\<close>, temperatures 35, 30 and
  null), and the other two parameters on observations whose three fields differ.
\<close>

theorem evaluateAlertCondition_correct_witness:
  "evaluateAlertCondition TEMPERATURE GT 30 \<lparr>temperatureC = Some 35, windSpeedMps = Some 12, precipitationMmHr = None\<rparr>
     = \<lparr>currentValue = Some 35, triggered = True\<rparr>
   \<and> evaluateAlertCondition TEMPERATURE GT 30 \<lparr>temperatureC = Some 30, windSpeedMps = Some 12, precipitationMmHr = None\<rparr>
     = \<lparr>currentValue = Some 30, triggered = False\<rparr>
   \<and> evaluateAlertCondition TEMPERATURE GT 30 \<lparr>temperatureC = None, windSpeedMps = Some 12, precipitationMmHr = Some 2\<rparr>
     = \<lparr>currentValue = None, triggered = False\<rparr>
   \<and> evaluateAlertCondition WIND_SPEED LTE 12 \<lparr>temperatureC = Some 35, windSpeedMps = Some 12, precipitationMmHr = None\<rparr>
     = \<lparr>currentValue = Some 12, triggered = True\<rparr>
   \<and> evaluateAlertCondition PRECIPITATION GTE 0 \<lparr>temperatureC = Some 35, windSpeedMps = Some 12, precipitationMmHr = None\<rparr>
     = \<lparr>currentValue = None, triggered = False\<rparr>
   \<and> evaluateAlertCondition PRECIPITATION NE 2 \<lparr>temperatureC = None, windSpeedMps = Some 12, precipitationMmHr = Some 2\<rparr>
     = \<lparr>currentValue = Some 2, triggered = False\<rparr>"
proof -
  let ?hot = "\<lparr>temperatureC = Some 35, windSpeedMps = Some 12, precipitationMmHr = None\<rparr>"
  let ?at = "\<lparr>temperatureC = Some 30, windSpeedMps = Some 12, precipitationMmHr = None\<rparr>"
  let ?wet = "\<lparr>temperatureC = None, windSpeedMps = Some 12, precipitationMmHr = Some 2\<rparr>"
  note hot = evaluateAlertCondition_correct
      [where op = GT and t = 30 and a = "Some 35" and b = "Some 12" and c = None and p = TEMPERATURE and vs = ?hot]
  note at = evaluateAlertCondition_correct
      [where op = GT and t = 30 and a = "Some 30" and b = "Some 12" and c = None and p = TEMPERATURE and vs = ?at]
  note null = evaluateAlertCondition_correct
      [where op = GT and t = 30 and a = None and b = "Some 12" and c = "Some 2" and p = TEMPERATURE and vs = ?wet]
  note wind = evaluateAlertCondition_correct
      [where op = LTE and t = 12 and a = "Some 35" and b = "Some 12" and c = None and p = WIND_SPEED and vs = ?hot]
  note dry = evaluateAlertCondition_correct
      [where op = GTE and t = 0 and a = "Some 35" and b = "Some 12" and c = None and p = PRECIPITATION and vs = ?hot]
  note rain = evaluateAlertCondition_correct
      [where op = NE and t = 2 and a = None and b = "Some 12" and c = "Some 2" and p = PRECIPITATION and vs = ?wet]
  have h1: "evaluateAlertCondition TEMPERATURE GT 30 ?hot = \<lparr>currentValue = Some 35, triggered = True\<rparr>"
    using hot [THEN conjunct1] by simp
  have h2: "evaluateAlertCondition TEMPERATURE GT 30 ?at = \<lparr>currentValue = Some 30, triggered = False\<rparr>"
    using at [THEN conjunct1] by simp
  have h3: "evaluateAlertCondition TEMPERATURE GT 30 ?wet = \<lparr>currentValue = None, triggered = False\<rparr>"
    using null [THEN conjunct1] by simp
  have h4: "evaluateAlertCondition WIND_SPEED LTE 12 ?hot = \<lparr>currentValue = Some 12, triggered = True\<rparr>"
    using wind [THEN conjunct2, THEN conjunct1] by simp
  have h5: "evaluateAlertCondition PRECIPITATION GTE 0 ?hot = \<lparr>currentValue = None, triggered = False\<rparr>"
    using dry [THEN conjunct2, THEN conjunct2, THEN conjunct1] by simp
  have h6: "evaluateAlertCondition PRECIPITATION NE 2 ?wet = \<lparr>currentValue = Some 2, triggered = False\<rparr>"
    using rain [THEN conjunct2, THEN conjunct2, THEN conjunct1] by simp
  have h7: "\<not> triggered (evaluateAlertCondition TEMPERATURE GT 30 ?at)"
    using at [THEN conjunct2, THEN conjunct2, THEN conjunct2, THEN conjunct2, THEN conjunct2, THEN conjunct1] h2
    by (simp del: evaluateAlertCondition.simps)
  have h8: "triggered (evaluateAlertCondition TEMPERATURE GT 30 ?hot)"
    using hot [THEN conjunct2, THEN conjunct2, THEN conjunct2, THEN conjunct2, THEN conjunct2, THEN conjunct2] h1
    by (simp del: evaluateAlertCondition.simps)
  from h1 h2 h3 h4 h5 h6 h7 h8 show ?thesis by blast
qed

subsection \<open>The alert matcher\<close>

text \<open>
  An alert with both coordinates is matched exactly when each coordinate differs from
  the observation's by at most the radius.
\<close>

lemma findAlertsForLocation_located:
  assumes "latitude a = Some la" and "longitude a = Some lo"
  shows "a \<in> set (findAlertsForLocation alerts lat lon r)
         \<longleftrightarrow> a \<in> set alerts \<and> \<bar>la - lat\<bar> \<le> r \<and> \<bar>lo - lon\<bar> \<le> r"
  using assms by (auto simp add: findAlertsForLocation_def withinRadius_def)

text \<open>
  Claim C7 says that the matcher returns the alerts with a location within the
  tolerance of 0.01 degrees on each axis, and never an alert without a location. The
  filter reads a null coordinate as 0, so an alert created with a city name only is
  matched by an observation at latitude 0, longitude 0.
\<close>

theorem findAlertsForLocation_matches_null_location:
  "latitude cityOnlyAlert = None \<and> longitude cityOnlyAlert = None
   \<and> findAlertsForLocation [cityOnlyAlert] 0 0 (1/100) = [cityOnlyAlert]"
  by (simp add: findAlertsForLocation_def withinRadius_def cityOnlyAlert_def)

subsection \<open>Published weather events\<close>









subsection \<open>The circuit breaker\<close>

lemma breakerRun_Nil: "breakerRun config [] cb = cb"
  by (simp add: breakerRun_def)

lemma breakerRun_Cons: "breakerRun config (ev # evs) cb = breakerRun config evs (breakerStep config ev cb)"
  by (simp add: breakerRun_def)


text \<open>
  A call of \<^verbatim>\<open>execute\<close> that no other call overlaps is an admission step followed by
  the settlement step of its outcome.
\<close>

lemma execute_is_admit_then_settle:
  "CircuitBreaker_execute config Date_now operation (cb, w) =
     (case enter config (Date_now w) cb of
        Inl e \<Rightarrow> (Inl e, breakerRun config [Admit (Date_now w)] cb, w)
      | Inr cb1 \<Rightarrow>
          (case operation w of
             (Inr result, w') \<Rightarrow> (Inr result, breakerRun config [Admit (Date_now w), Succeed (Date_now w')] cb, w')
           | (Inl error, w') \<Rightarrow> (Inl error, breakerRun config [Admit (Date_now w), Fail (Date_now w')] cb, w')))"
  by (simp add: CircuitBreaker_execute_def breakerRun_def split: sum.splits prod.splits)














lemma requests_are_failures:
  "requestCount (breakerRun config evs (newCircuitBreaker t0)) = failureCount (breakerRun config evs (newCircuitBreaker t0))"
proof -
  have step: "requestCount (breakerStep config ev cb) = failureCount (breakerStep config ev cb)"
    if "requestCount cb = failureCount cb" for ev cb
    using that
    by (cases ev)
      (auto simp add: enter_def onSuccess_def resetCounters_def onFailure_def shouldOpenCircuit_def Let_def
        split: bool.splits)
  have "requestCount (breakerRun config evs cb) = failureCount (breakerRun config evs cb)"
    if "requestCount cb = failureCount cb" for cb
    using that by (induction evs arbitrary: cb) (simp_all add: breakerRun_Nil breakerRun_Cons step)
  then show ?thesis by (simp add: newCircuitBreaker_def)
qed






text \<open>
  It fails as well for failures on both sides of the end of a window: failures at 50,
  55 and 61 s are within 11 s of each other, and the third one resets the counters.
\<close>

lemma failures_across_windows_stay_closed:
  "breakerRun breakerConfig [Admit 49900, Fail 50000, Admit 54900, Fail 55000, Admit 60900, Fail 61000]
     (newCircuitBreaker 0)
   = \<lparr>state = CLOSED, failureCount = 0, lastFailureTime = 61000, requestCount = 0, windowStart = 61000\<rparr>"
  by code_simp

text \<open>
  A success does not close the breaker when another call, admitted while the breaker
  was \<open>HALF_OPEN\<close>, has failed in between: the failure opens the breaker again and the
  success only resets the counters.
\<close>

lemma overlapping_failure_keeps_open:
  "breakerRun breakerConfig [Admit 34000, Admit 34010] opened = opened\<lparr>state := HALF_OPEN\<rparr>
   \<and> breakerRun breakerConfig [Admit 34000, Admit 34010, Fail 34050, Succeed 34100] opened
      = \<lparr>state = OPEN, failureCount = 0, lastFailureTime = 34050, requestCount = 0, windowStart = 34100\<rparr>"
  by code_simp

subsection \<open>The retry loop of the provider\<close>

lemma attemptLoop_response:
  assumes "attempt \<le> maxAttempts" "axios_get (snd st) = (Response vals remaining, w1)"
  shows "attemptLoop cfg lat lon attempt st =
     (let p1 = (case remaining of None \<Rightarrow> fst st | Some r \<Rightarrow> (fst st)\<lparr>remainingCalls := Some r\<rparr>);
          result = mapResponse vals
      in (Inr result,
          p1\<lparr>cache := (cache p1)(cacheKey cfg lat lon \<mapsto> \<lparr>entry_value = result, expiresAt = clock w1 + cacheTtlMs cfg\<rparr>)\<rparr>,
          w1))"
  using assms by (subst attemptLoop.simps) (simp add: Let_def)

lemma attemptLoop_failure:
  assumes "attempt \<le> maxAttempts" "axios_get (snd st) = (Failure status retryAfter, w1)"
  shows "attemptLoop cfg lat lon attempt st =
     (if \<not> isRetryable status \<or> attempt = maxAttempts
      then (if status = Some 429
            then (let p1 = (fst st)\<lparr>rateLimitResetTime := clock w1 + 60 * 1000, remainingCalls := Some 0\<rparr>;
                      (mockResult, w2) = demoData (DemoRateLimited lat lon) w1
                  in (Inr mockResult,
                      p1\<lparr>cache := (cache p1)(cacheKey cfg lat lon \<mapsto> \<lparr>entry_value = mockResult, expiresAt = clock w2 + cacheTtlMs cfg\<rparr>)\<rparr>,
                      w2))
            else (Inl (AxiosError status), fst st, w1))
      else attemptLoop cfg lat lon (attempt + 1)
             (fst st, sleep (fst (backoff retryAfter attempt w1)) (snd (backoff retryAfter attempt w1))))"
  using assms by (subst attemptLoop.simps) (simp add: Let_def split: prod.splits)


lemma calls_axios_get: "axios_get w = (outcome, w1) \<Longrightarrow> calls w1 = calls w + 1 \<and> sleeps w1 = sleeps w"
  by (auto simp add: axios_get_def split: prod.splits)

lemma calls_demoData: "calls (snd (demoData m w)) = calls w"
  by (simp add: demoData_def Math_random_def Let_def split: prod.splits)

lemma calls_backoff: "calls (snd (backoff ra attempt w)) = calls w"
  by (simp add: backoff_def Math_random_def Let_def split: RetryAfter.splits prod.splits)

lemma attemptLoop_calls:
  "attempt \<le> maxAttempts \<Longrightarrow> calls (snd st) < calls (snd (snd (attemptLoop cfg lat lon attempt st)))"
proof (induction cfg lat lon attempt st rule: attemptLoop.induct)
  case (1 cfg lat lon attempt st)
  obtain outcome w1 where ax: "axios_get (snd st) = (outcome, w1)" by (cases "axios_get (snd st)")
  then have c1: "calls w1 = calls (snd st) + 1" using calls_axios_get by blast
  show ?case
  proof (cases outcome)
    case (Response vals remaining)
    note eq = attemptLoop_response [OF "1.prems" ax [unfolded Response], of cfg lat lon]
    show ?thesis unfolding eq using c1 by (simp add: Let_def)
  next
    case (Failure status retryAfter)
    note eq = attemptLoop_failure [OF "1.prems" ax [unfolded Failure], of cfg lat lon]
    show ?thesis
    proof (cases "\<not> isRetryable status \<or> attempt = maxAttempts")
      case True
      show ?thesis
      proof (cases "status = Some 429")
        case s: True
        have "calls (snd (snd (attemptLoop cfg lat lon attempt st))) = calls (snd (demoData (DemoRateLimited lat lon) w1))"
          unfolding eq using True s by (simp add: Let_def split: prod.splits)
        with c1 calls_demoData [of "DemoRateLimited lat lon" w1] show ?thesis by simp
      next
        case s: False
        show ?thesis unfolding eq using True s c1 by simp
      qed
    next
      case False
      obtain delayMs w2 where b: "backoff retryAfter attempt w1 = (delayMs, w2)"
        by (cases "backoff retryAfter attempt w1")
      then have c2: "calls w2 = calls w1" using calls_backoff [of retryAfter attempt w1] by simp
      from False "1.prems" have le: "attempt + 1 \<le> maxAttempts" by simp
      have ih: "calls (snd (fst st, sleep delayMs w2))
              < calls (snd (snd (attemptLoop cfg lat lon (attempt + 1) (fst st, sleep delayMs w2))))"
      proof -
        from "1.prems" have notgt: "\<not> maxAttempts < attempt" by simp
        show ?thesis
          by (rule "1.IH" [OF notgt refl refl ax [symmetric] Failure False refl b [symmetric] le])
      qed
      have "attemptLoop cfg lat lon attempt st = attemptLoop cfg lat lon (attempt + 1) (fst st, sleep delayMs w2)"
        unfolding eq using False b by simp
      with ih c1 c2 show ?thesis
        by (simp add: sleep_def)
    qed
  qed
qed


lemma sleeps_demoData: "sleeps (snd (demoData m w)) = sleeps w"
  by (simp add: demoData_def Math_random_def Let_def split: prod.splits)

lemma sleeps_backoff: "sleeps (snd (backoff ra attempt w)) = sleeps w"
  by (simp add: backoff_def Math_random_def Let_def split: RetryAfter.splits prod.splits)

lemma backoff_bounds:
  assumes "0 \<le> random w (draws w)" "random w (draws w) < 1"
  shows "400 * 2 ^ (attempt - 1) \<le> fst (backoff NoRetryAfter attempt w)"
    and "fst (backoff NoRetryAfter attempt w) < 400 * 2 ^ (attempt - 1) + 250"
proof -
  let ?r = "random w (draws w)"
  have lo: "0 \<le> \<lfloor>?r * 250\<rfloor>" using assms(1) by simp
  have "?r * 250 < 250" using assms(2) by simp
  then have hi: "\<lfloor>?r * 250\<rfloor> < 250" by (simp add: floor_less_iff)
  have eq: "fst (backoff NoRetryAfter attempt w) = 400 * 2 ^ (attempt - 1) + of_int \<lfloor>?r * 250\<rfloor>"
    by (simp add: backoff_def Math_random_def Let_def)
  from lo show "400 * 2 ^ (attempt - 1) \<le> fst (backoff NoRetryAfter attempt w)"
    unfolding eq by simp
  from hi show "fst (backoff NoRetryAfter attempt w) < 400 * 2 ^ (attempt - 1) + 250"
    unfolding eq by simp
qed

text \<open>
  Claim C4 says that a failed attempt is retried with backoff exactly when the failure
  is a 429, a 5xx or a timeout. In the loop a failure is retryable exactly when it has
  a status that is 429 or in 500..599; a timeout has no status. What holds is: a failed
  attempt is followed by a sleep of the backoff delay and another attempt exactly when
  its status is 429 or 5xx and it is not the fourth attempt; a failure with any other
  status, or with no status, rejects at once with that error after a single call and no
  sleep; a fourth attempt that fails with a status other than 429 rejects as well.
\<close>

theorem retry_only_429_and_5xx:
  "attempt \<le> maxAttempts \<and> axios_get (snd st) = (Failure status retryAfter, w1) \<longrightarrow>
     (isRetryable status \<longleftrightarrow> status = Some 429 \<or> (\<exists>s. status = Some s \<and> 500 \<le> s \<and> s < 600))
     \<and> (isRetryable status \<and> attempt < maxAttempts \<longrightarrow>
          attemptLoop cfg lat lon attempt st
            = attemptLoop cfg lat lon (attempt + 1)
                (fst st, sleep (fst (backoff retryAfter attempt w1)) (snd (backoff retryAfter attempt w1)))
          \<and> calls (snd st) + 2 \<le> calls (snd (snd (attemptLoop cfg lat lon attempt st))))
     \<and> (\<not> isRetryable status \<longrightarrow>
          attemptLoop cfg lat lon attempt st = (Inl (AxiosError status), fst st, w1)
          \<and> calls w1 = calls (snd st) + 1 \<and> sleeps w1 = sleeps (snd st))
     \<and> (attempt = maxAttempts \<and> status \<noteq> Some 429 \<longrightarrow>
          attemptLoop cfg lat lon attempt st = (Inl (AxiosError status), fst st, w1)
          \<and> calls w1 = calls (snd st) + 1 \<and> sleeps w1 = sleeps (snd st))"
proof (intro impI, elim conjE)
  assume le: "attempt \<le> maxAttempts" and ax: "axios_get (snd st) = (Failure status retryAfter, w1)"
  note eq = attemptLoop_failure [OF le ax, of cfg lat lon]
  note c1 = calls_axios_get [OF ax]
  have kind: "isRetryable status \<longleftrightarrow> status = Some 429 \<or> (\<exists>s. status = Some s \<and> 500 \<le> s \<and> s < 600)"
    by (cases status) (auto simp add: isRetryable_def)
  have retried: "attemptLoop cfg lat lon attempt st
            = attemptLoop cfg lat lon (attempt + 1)
                (fst st, sleep (fst (backoff retryAfter attempt w1)) (snd (backoff retryAfter attempt w1)))
          \<and> calls (snd st) + 2 \<le> calls (snd (snd (attemptLoop cfg lat lon attempt st)))"
    if r: "isRetryable status \<and> attempt < maxAttempts"
  proof -
    let ?st' = "(fst st, sleep (fst (backoff retryAfter attempt w1)) (snd (backoff retryAfter attempt w1)))"
    have e: "attemptLoop cfg lat lon attempt st = attemptLoop cfg lat lon (attempt + 1) ?st'"
      unfolding eq using r by simp
    from r have "attempt + 1 \<le> maxAttempts" by simp
    from attemptLoop_calls [OF this, of ?st' cfg lat lon]
    have "calls (snd ?st') < calls (snd (snd (attemptLoop cfg lat lon (attempt + 1) ?st')))" .
    moreover have "calls (snd ?st') = calls (snd st) + 1"
      using c1 calls_backoff [of retryAfter attempt w1] by (simp add: sleep_def)
    ultimately show ?thesis using e by simp
  qed
  have propagated: "attemptLoop cfg lat lon attempt st = (Inl (AxiosError status), fst st, w1)
          \<and> calls w1 = calls (snd st) + 1 \<and> sleeps w1 = sleeps (snd st)"
    if n: "\<not> isRetryable status \<or> (attempt = maxAttempts \<and> status \<noteq> Some 429)"
  proof -
    from n have "status \<noteq> Some 429" by (auto simp add: isRetryable_def)
    with n show ?thesis unfolding eq using c1 by auto
  qed
  from kind retried propagated
  show "(isRetryable status \<longleftrightarrow> status = Some 429 \<or> (\<exists>s. status = Some s \<and> 500 \<le> s \<and> s < 600))
     \<and> (isRetryable status \<and> attempt < maxAttempts \<longrightarrow>
          attemptLoop cfg lat lon attempt st
            = attemptLoop cfg lat lon (attempt + 1)
                (fst st, sleep (fst (backoff retryAfter attempt w1)) (snd (backoff retryAfter attempt w1)))
          \<and> calls (snd st) + 2 \<le> calls (snd (snd (attemptLoop cfg lat lon attempt st))))
     \<and> (\<not> isRetryable status \<longrightarrow>
          attemptLoop cfg lat lon attempt st = (Inl (AxiosError status), fst st, w1)
          \<and> calls w1 = calls (snd st) + 1 \<and> sleeps w1 = sleeps (snd st))
     \<and> (attempt = maxAttempts \<and> status \<noteq> Some 429 \<longrightarrow>
          attemptLoop cfg lat lon attempt st = (Inl (AxiosError status), fst st, w1)
          \<and> calls w1 = calls (snd st) + 1 \<and> sleeps w1 = sleeps (snd st))"
    by blast
qed


theorem retry_only_429_and_5xx_witness:
  "attemptLoop metricConfig 42 (-71) 1 (newProvider, unavailableThenNotFound)
     = (Inl (AxiosError (Some 404)), newProvider,
        unavailableThenNotFound\<lparr>clock := 700, calls := 2, draws := 1, sleeps := [400]\<rparr>)
   \<and> attemptLoop metricConfig 42 (-71) 4 (newProvider, alwaysServerError)
     = (Inl (AxiosError (Some 500)), newProvider, alwaysServerError\<lparr>clock := 100, calls := 1\<rparr>)"
proof -
  let ?w1 = "unavailableThenNotFound\<lparr>clock := 100, calls := 1\<rparr>"
  let ?w2 = "unavailableThenNotFound\<lparr>clock := 100, calls := 1, draws := 1, sleeps := [400]\<rparr>"
  let ?w3 = "unavailableThenNotFound\<lparr>clock := 700, calls := 2, draws := 1, sleeps := [400]\<rparr>"
  have a1: "axios_get unavailableThenNotFound = (Failure (Some 503) NoRetryAfter, ?w1)"
    by (simp add: axios_get_def unavailableThenNotFound_def)
  have b1: "sleep (fst (backoff NoRetryAfter 1 ?w1)) (snd (backoff NoRetryAfter 1 ?w1)) = ?w2"
    by (simp add: backoff_def Math_random_def sleep_def unavailableThenNotFound_def)
  have a2: "axios_get ?w2 = (Failure (Some 404) NoRetryAfter, ?w3)"
    by (simp add: axios_get_def unavailableThenNotFound_def)
  have r503: "isRetryable (Some 503)" and r404: "\<not> isRetryable (Some 404)"
    by (simp_all add: isRetryable_def)
  have first: "attemptLoop metricConfig 42 (-71) 1 (newProvider, unavailableThenNotFound)
      = attemptLoop metricConfig 42 (-71) 2 (newProvider, ?w2)"
    using retry_only_429_and_5xx [of 1 "(newProvider, unavailableThenNotFound)" "Some 503" NoRetryAfter ?w1
            metricConfig 42 "-71"] a1 b1 r503
    by (simp add: maxAttempts_def numeral_2_eq_2)
  have second: "attemptLoop metricConfig 42 (-71) 2 (newProvider, ?w2) = (Inl (AxiosError (Some 404)), newProvider, ?w3)"
    using retry_only_429_and_5xx [of 2 "(newProvider, ?w2)" "Some 404" NoRetryAfter ?w3
            metricConfig 42 "-71"] a2 r404
    by (simp add: maxAttempts_def)
  have a4: "axios_get alwaysServerError = (Failure (Some 500) NoRetryAfter, alwaysServerError\<lparr>clock := 100, calls := 1\<rparr>)"
    by (simp add: axios_get_def alwaysServerError_def)
  have last: "attemptLoop metricConfig 42 (-71) 4 (newProvider, alwaysServerError)
     = (Inl (AxiosError (Some 500)), newProvider, alwaysServerError\<lparr>clock := 100, calls := 1\<rparr>)"
    using retry_only_429_and_5xx [of 4 "(newProvider, alwaysServerError)" "Some 500" NoRetryAfter
            "alwaysServerError\<lparr>clock := 100, calls := 1\<rparr>" metricConfig 42 "-71"] a4
    by (simp add: maxAttempts_def)
  from first second last show ?thesis by simp
qed

text \<open>
  The claim as stated fails for a timeout: the first call times out, the second would
  have succeeded, and the loop rejects after the first call without sleeping.
\<close>

lemma axios_get_timeoutThenFine:
  "axios_get timeoutThenFine = (Failure None NoRetryAfter, timeoutThenFine\<lparr>clock := 5000, calls := 1\<rparr>)"
  by (simp add: axios_get_def timeoutThenFine_def)

theorem timeout_is_not_retried: "fst (upstream timeoutThenFine 0) = Failure None NoRetryAfter
   \<and> fst (upstream timeoutThenFine 1) = Response clearSky None
   \<and> attemptLoop metricConfig 42 (-71) 1 (newProvider, timeoutThenFine)
     = (Inl (AxiosError None), newProvider, timeoutThenFine\<lparr>clock := 5000, calls := 1\<rparr>)"
  using attemptLoop_failure [of 1 "(newProvider, timeoutThenFine)" None NoRetryAfter
          "timeoutThenFine\<lparr>clock := 5000, calls := 1\<rparr>" metricConfig 42 "-71"]
  by (simp add: maxAttempts_def axios_get_timeoutThenFine isRetryable_def) (simp add: timeoutThenFine_def)

subsection \<open>Rate limits in the provider\<close>

lemma demoData_raw: "raw (fst (demoData m w)) = m"
  by (simp add: demoData_def Math_random_def Let_def split: prod.splits)

lemma demoData_world:
  "clock (snd (demoData m w)) = clock w" "upstream (snd (demoData m w)) = upstream w"
  by (simp_all add: demoData_def Math_random_def Let_def split: prod.splits)

lemma backoff_world:
  "clock (snd (backoff ra attempt w)) = clock w" "upstream (snd (backoff ra attempt w)) = upstream w"
  by (simp_all add: backoff_def Math_random_def Let_def split: RetryAfter.splits prod.splits)

lemma retry_step:
  assumes "attempt < maxAttempts" "retryableFailure (fst (upstream w (calls w)))"
  shows "\<exists>w'. attemptLoop cfg lat lon attempt (p, w) = attemptLoop cfg lat lon (attempt + 1) (p, w')
            \<and> upstream w' = upstream w \<and> calls w' = calls w + 1"
proof -
  obtain outcome t where u: "upstream w (calls w) = (outcome, t)" by (cases "upstream w (calls w)")
  with assms(2) obtain status retryAfter where f: "outcome = Failure status retryAfter" and r: "isRetryable status"
    by (cases outcome) (auto simp add: retryableFailure_def)
  let ?w1 = "w\<lparr>clock := t, calls := calls w + 1\<rparr>"
  have ax: "axios_get (snd (p, w)) = (Failure status retryAfter, ?w1)"
    using u f by (simp add: axios_get_def)
  let ?w' = "sleep (fst (backoff retryAfter attempt ?w1)) (snd (backoff retryAfter attempt ?w1))"
  from assms(1) have le: "attempt \<le> maxAttempts" by simp
  have "attemptLoop cfg lat lon attempt (p, w) = attemptLoop cfg lat lon (attempt + 1) (p, ?w')"
    using attemptLoop_failure [OF le ax, of cfg lat lon] r assms(1) by simp
  moreover have "upstream ?w' = upstream w" "calls ?w' = calls w + 1"
    using backoff_world(2) [of retryAfter attempt ?w1] calls_backoff [of retryAfter attempt ?w1]
    by (simp_all add: sleep_def)
  ultimately show ?thesis by blast
qed

lemma last_attempt_429:
  assumes "rateLimited (fst (upstream w (calls w)))"
  shows "\<exists>d p' w'. attemptLoop cfg lat lon maxAttempts (p, w) = (Inr d, p', w')
            \<and> raw d = DemoRateLimited lat lon
            \<and> cache p' (cacheKey cfg lat lon) = Some \<lparr>entry_value = d, expiresAt = clock w' + cacheTtlMs cfg\<rparr>
            \<and> rateLimitResetTime p' = clock w' + 60000
            \<and> inFlight p' = inFlight p
            \<and> calls w' = calls w + 1"
proof -
  obtain outcome t where u: "upstream w (calls w) = (outcome, t)" by (cases "upstream w (calls w)")
  with assms obtain retryAfter where f: "outcome = Failure (Some 429) retryAfter"
    by (cases outcome) (auto simp add: rateLimited_def)
  let ?w1 = "w\<lparr>clock := t, calls := calls w + 1\<rparr>"
  have ax: "axios_get (snd (p, w)) = (Failure (Some 429) retryAfter, ?w1)"
    using u f by (simp add: axios_get_def)
  obtain d w2 where dd: "demoData (DemoRateLimited lat lon) ?w1 = (d, w2)"
    by (cases "demoData (DemoRateLimited lat lon) ?w1")
  have props: "raw d = DemoRateLimited lat lon" "clock w2 = t" "calls w2 = calls w + 1"
    using demoData_raw [of "DemoRateLimited lat lon" ?w1] demoData_world(1) [of "DemoRateLimited lat lon" ?w1]
      calls_demoData [of "DemoRateLimited lat lon" ?w1] dd by simp_all
  have "attemptLoop cfg lat lon maxAttempts (p, w) =
      (Inr d, p\<lparr>rateLimitResetTime := t + 60 * 1000, remainingCalls := Some 0,
                 cache := (cache p)(cacheKey cfg lat lon \<mapsto> \<lparr>entry_value = d, expiresAt = clock w2 + cacheTtlMs cfg\<rparr>)\<rparr>, w2)"
    using attemptLoop_failure [OF le_refl ax, of cfg lat lon] dd by simp
  with props show ?thesis by simp
qed

lemma exhausted_gives_demo:
  assumes "exhaustedOn429 w"
  shows "\<exists>d p' w'. attemptLoop cfg lat lon 1 (p, w) = (Inr d, p', w')
            \<and> raw d = DemoRateLimited lat lon
            \<and> cache p' (cacheKey cfg lat lon) = Some \<lparr>entry_value = d, expiresAt = clock w' + cacheTtlMs cfg\<rparr>
            \<and> rateLimitResetTime p' = clock w' + 60000
            \<and> inFlight p' = inFlight p
            \<and> calls w' = calls w + 4"
proof -
  from assms have a: "retryableFailure (fst (upstream w (calls w)))"
    "retryableFailure (fst (upstream w (calls w + 1)))"
    "retryableFailure (fst (upstream w (calls w + 2)))"
    "rateLimited (fst (upstream w (calls w + 3)))"
    by (simp_all add: exhaustedOn429_def)
  have lt1: "(1::nat) < maxAttempts" and lt2: "(1 + 1 :: nat) < maxAttempts"
    and lt3: "(1 + 1 + 1 :: nat) < maxAttempts" and m: "maxAttempts = 1 + 1 + 1 + 1"
    by (simp_all add: maxAttempts_def)
  from retry_step [OF lt1 a(1), of cfg lat lon p]
  obtain w1 where s1: "attemptLoop cfg lat lon 1 (p, w) = attemptLoop cfg lat lon (1 + 1) (p, w1)"
    "upstream w1 = upstream w" "calls w1 = calls w + 1"
    by blast
  have r1: "retryableFailure (fst (upstream w1 (calls w1)))"
    using a(2) s1(2,3) by simp
  from retry_step [OF lt2 r1, of cfg lat lon p]
  obtain w2 where s2: "attemptLoop cfg lat lon (1 + 1) (p, w1) = attemptLoop cfg lat lon (1 + 1 + 1) (p, w2)"
    "upstream w2 = upstream w1" "calls w2 = calls w1 + 1"
    by blast
  have r2: "retryableFailure (fst (upstream w2 (calls w2)))"
    using a(3) s1(2,3) s2(2,3) by (simp add: numeral_2_eq_2)
  from retry_step [OF lt3 r2, of cfg lat lon p]
  obtain w3 where s3: "attemptLoop cfg lat lon (1 + 1 + 1) (p, w2) = attemptLoop cfg lat lon (1 + 1 + 1 + 1) (p, w3)"
    "upstream w3 = upstream w2" "calls w3 = calls w2 + 1"
    by blast
  have r3: "rateLimited (fst (upstream w3 (calls w3)))"
    using a(4) s1(2,3) s2(2,3) s3(2,3) by (simp add: numeral_3_eq_3)
  from last_attempt_429 [OF r3, of cfg lat lon p, unfolded m]
  obtain d p' w' where l: "attemptLoop cfg lat lon (1 + 1 + 1 + 1) (p, w3) = (Inr d, p', w')"
    "raw d = DemoRateLimited lat lon"
    "cache p' (cacheKey cfg lat lon) = Some \<lparr>entry_value = d, expiresAt = clock w' + cacheTtlMs cfg\<rparr>"
    "rateLimitResetTime p' = clock w' + 60000" "inFlight p' = inFlight p" "calls w' = calls w3 + 1"
    by blast
  have "attemptLoop cfg lat lon 1 (p, w) = (Inr d, p', w')"
    using s1(1) s2(1) s3(1) l(1) by (rule trans [OF trans [OF trans]])
  moreover have "calls w' = calls w + 4"
    using l(6) s1(3) s2(3) s3(3) by simp
  ultimately show ?thesis using l(2,3,4,5) by blast
qed

lemma attemptLoop_never_429:
  "fst (attemptLoop cfg lat lon attempt st) \<noteq> Inl (AxiosError (Some 429))"
proof (induction cfg lat lon attempt st rule: attemptLoop.induct)
  case (1 cfg lat lon attempt st)
  show ?case
  proof (cases "attempt > maxAttempts")
    case True
    then show ?thesis by (subst attemptLoop.simps) simp
  next
    case gt: False
    then have le: "attempt \<le> maxAttempts" by simp
    obtain outcome w1 where ax: "axios_get (snd st) = (outcome, w1)" by (cases "axios_get (snd st)")
    show ?thesis
    proof (cases outcome)
      case (Response vals remaining)
      show ?thesis
        unfolding attemptLoop_response [OF le ax [unfolded Response], of cfg lat lon]
        by (simp add: Let_def)
    next
      case (Failure status retryAfter)
      note eq = attemptLoop_failure [OF le ax [unfolded Failure], of cfg lat lon]
      show ?thesis
      proof (cases "\<not> isRetryable status \<or> attempt = maxAttempts")
        case True
        then show ?thesis unfolding eq by (simp add: Let_def split: prod.splits)
      next
        case False
        obtain delayMs w2 where b: "backoff retryAfter attempt w1 = (delayMs, w2)"
          by (cases "backoff retryAfter attempt w1")
        have "fst (attemptLoop cfg lat lon (attempt + 1) (fst st, sleep delayMs w2)) \<noteq> Inl (AxiosError (Some 429))"
          by (rule "1.IH" [OF gt refl refl ax [symmetric] Failure False refl b [symmetric]])
        then show ?thesis unfolding eq using False b by simp
      qed
    qed
  qed
qed


lemma getRealtime_cooldown:
  assumes "redisGet w (cacheKey cfg lat lon) = None" "cacheHit p (cacheKey cfg lat lon) (clock w) = None"
    "inFlight p (cacheKey cfg lat lon) = None" "clock w < rateLimitResetTime p"
  shows "getRealtime cfg lat lon (cb, p, w)
         = (Settled (Inr (fst (demoData (DemoCooldown lat lon) w))), cb,
            p\<lparr>cache := (cache p)(cacheKey cfg lat lon \<mapsto>
                 \<lparr>entry_value = fst (demoData (DemoCooldown lat lon) w), expiresAt = clock w + cacheTtlMs cfg\<rparr>)\<rparr>,
            snd (demoData (DemoCooldown lat lon) w))"
  using assms by (simp add: getRealtime_def lookup_def serveCooldown_def Let_def split: prod.splits)

lemma getRealtime_request:
  assumes "redisGet w (cacheKey cfg lat lon) = None" "cacheHit p (cacheKey cfg lat lon) (clock w) = None"
    "inFlight p (cacheKey cfg lat lon) = None" "\<not> clock w < rateLimitResetTime p"
    "CircuitBreaker_execute breakerConfig (\<lambda>pw. clock (snd pw)) (attemptLoop cfg lat lon 1) (cb, p, w) = (r, cb', p', w')"
  shows "getRealtime cfg lat lon (cb, p, w)
         = (Settled r, cb', p'\<lparr>inFlight := (inFlight p')(cacheKey cfg lat lon := None)\<rparr>, w')"
  using assms by (simp add: getRealtime_def lookup_def Let_def)

lemma execute_never_429:
  "fst (CircuitBreaker_execute config (\<lambda>pw. clock (snd pw)) (attemptLoop cfg lat lon attempt) st)
     \<noteq> Inl (AxiosError (Some 429))"
proof (cases "enter config (clock (snd (snd st))) (fst st)")
  case (Inl e)
  then show ?thesis
    by (auto simp add: CircuitBreaker_execute_def enter_def split: if_splits)
next
  case (Inr cb1)
  obtain r p' w' where a: "attemptLoop cfg lat lon attempt (snd st) = (r, p', w')"
    by (cases "attemptLoop cfg lat lon attempt (snd st)")
  with attemptLoop_never_429 [of cfg lat lon attempt "snd st"] have "r \<noteq> Inl (AxiosError (Some 429))" by simp
  with Inr a show ?thesis
    by (cases r) (simp_all add: CircuitBreaker_execute_def)
qed

lemma getRealtime_never_429:
  "fst (getRealtime cfg lat lon st) \<noteq> Settled (Inl (AxiosError (Some 429)))"
proof -
  obtain cb p w where st: "st = (cb, p, w)" by (cases st)
  obtain r cb' p' w' where e:
    "CircuitBreaker_execute breakerConfig (\<lambda>pw. clock (snd pw)) (attemptLoop cfg lat lon 1) (cb, p, w) = (r, cb', p', w')"
    by (cases "CircuitBreaker_execute breakerConfig (\<lambda>pw. clock (snd pw)) (attemptLoop cfg lat lon 1) (cb, p, w)")
  with execute_never_429 [of breakerConfig cfg lat lon 1 "(cb, p, w)"] have "r \<noteq> Inl (AxiosError (Some 429))"
    by simp
  with e show ?thesis unfolding st
    by (simp add: getRealtime_def Let_def split: Lookup.splits prod.splits)
qed

text \<open>
  Claim C3 says that every call to \<^verbatim>\<open>getRealtime\<close> made while a rate-limit condition
  holds returns a synthetic observation marked degraded, caches it, and never throws a
  rate-limit error. The observation type has no degraded flag: demo data is marked in
  \<^verbatim>\<open>raw.message\<close>, here by the constructors \<open>DemoCooldown\<close> and \<open>DemoRateLimited\<close>.
  The cache and the pending requests are consulted before the cooldown, so what holds
  is: (1) a call during the cooldown that finds no Redis entry, no fresh cache entry
  and no pending request for its key resolves with demo data, caches it under the key
  until the time of the call plus \<open>cacheTtlMs\<close>, and makes no upstream call; (2) a call
  that reaches the upstream through the breaker and whose fourth attempt fails with
  429, after three retryable failures, resolves with demo data, caches it with
  \<open>cacheTtlMs\<close>, and starts a cooldown of 60 s; (3) no call ever rejects with a 429
  error.
\<close>

theorem rate_limit_serves_demo_data:
  "(redisGet w (cacheKey cfg lat lon) = None \<and> cacheHit p (cacheKey cfg lat lon) (clock w) = None
      \<and> inFlight p (cacheKey cfg lat lon) = None \<and> clock w < rateLimitResetTime p
    \<longrightarrow> (\<exists>d w'. getRealtime cfg lat lon (cb, p, w)
                   = (Settled (Inr d), cb,
                      p\<lparr>cache := (cache p)(cacheKey cfg lat lon \<mapsto>
                           \<lparr>entry_value = d, expiresAt = clock w + cacheTtlMs cfg\<rparr>)\<rparr>, w')
                \<and> raw d = DemoCooldown lat lon \<and> isDemo d \<and> calls w' = calls w))
   \<and> (redisGet w (cacheKey cfg lat lon) = None \<and> cacheHit p (cacheKey cfg lat lon) (clock w) = None
      \<and> inFlight p (cacheKey cfg lat lon) = None \<and> \<not> clock w < rateLimitResetTime p
      \<and> (state cb \<noteq> OPEN \<or> recoveryTimeout breakerConfig \<le> clock w - lastFailureTime cb)
      \<and> exhaustedOn429 w
    \<longrightarrow> (\<exists>d cb' p' w'. getRealtime cfg lat lon (cb, p, w) = (Settled (Inr d), cb', p', w')
                \<and> raw d = DemoRateLimited lat lon \<and> isDemo d
                \<and> cache p' (cacheKey cfg lat lon) = Some \<lparr>entry_value = d, expiresAt = clock w' + cacheTtlMs cfg\<rparr>
                \<and> rateLimitResetTime p' = clock w' + 60000
                \<and> clock w' < rateLimitResetTime p'
                \<and> calls w' = calls w + 4))
   \<and> fst (getRealtime cfg lat lon (cb, p, w)) \<noteq> Settled (Inl (AxiosError (Some 429)))"
proof (intro conjI impI)
  assume a: "redisGet w (cacheKey cfg lat lon) = None \<and> cacheHit p (cacheKey cfg lat lon) (clock w) = None
      \<and> inFlight p (cacheKey cfg lat lon) = None \<and> clock w < rateLimitResetTime p"
  let ?d = "fst (demoData (DemoCooldown lat lon) w)"
  let ?w' = "snd (demoData (DemoCooldown lat lon) w)"
  have r: "raw ?d = DemoCooldown lat lon" by (rule demoData_raw)
  then have i: "isDemo ?d" by (simp add: isDemo_def)
  have c: "calls ?w' = calls w" by (rule calls_demoData)
  have g: "getRealtime cfg lat lon (cb, p, w)
         = (Settled (Inr ?d), cb,
            p\<lparr>cache := (cache p)(cacheKey cfg lat lon \<mapsto> \<lparr>entry_value = ?d, expiresAt = clock w + cacheTtlMs cfg\<rparr>)\<rparr>,
            ?w')"
    using getRealtime_cooldown [of w cfg lat lon p cb] a by simp
  show "\<exists>d w'. getRealtime cfg lat lon (cb, p, w)
                   = (Settled (Inr d), cb,
                      p\<lparr>cache := (cache p)(cacheKey cfg lat lon \<mapsto>
                           \<lparr>entry_value = d, expiresAt = clock w + cacheTtlMs cfg\<rparr>)\<rparr>, w')
                \<and> raw d = DemoCooldown lat lon \<and> isDemo d \<and> calls w' = calls w"
    by (rule exI [of _ ?d], rule exI [of _ ?w']) (simp only: g r i c simp_thms)
next
  assume a: "redisGet w (cacheKey cfg lat lon) = None \<and> cacheHit p (cacheKey cfg lat lon) (clock w) = None
      \<and> inFlight p (cacheKey cfg lat lon) = None \<and> \<not> clock w < rateLimitResetTime p
      \<and> (state cb \<noteq> OPEN \<or> recoveryTimeout breakerConfig \<le> clock w - lastFailureTime cb)
      \<and> exhaustedOn429 w"
  then have ex: "exhaustedOn429 w" by simp
  from exhausted_gives_demo [OF ex, of cfg lat lon p]
  obtain d p' w' where l: "attemptLoop cfg lat lon 1 (p, w) = (Inr d, p', w')"
    "raw d = DemoRateLimited lat lon"
    "cache p' (cacheKey cfg lat lon) = Some \<lparr>entry_value = d, expiresAt = clock w' + cacheTtlMs cfg\<rparr>"
    "rateLimitResetTime p' = clock w' + 60000" "inFlight p' = inFlight p" "calls w' = calls w + 4"
    by blast
  from a have "\<exists>cb1. enter breakerConfig (clock w) cb = Inr cb1"
    by (cases "state cb = OPEN") (simp_all add: enter_def shouldAttemptReset_def)
  then obtain cb1 where en: "enter breakerConfig (clock w) cb = Inr cb1" by blast
  have "CircuitBreaker_execute breakerConfig (\<lambda>pw. clock (snd pw)) (attemptLoop cfg lat lon 1) (cb, p, w)
          = (Inr d, onSuccess (clock w') cb1, p', w')"
    using en l(1) by (simp add: CircuitBreaker_execute_def)
  from getRealtime_request [OF _ _ _ _ this] a
  have g: "getRealtime cfg lat lon (cb, p, w)
         = (Settled (Inr d), onSuccess (clock w') cb1, p'\<lparr>inFlight := (inFlight p')(cacheKey cfg lat lon := None)\<rparr>, w')"
    by simp
  have "isDemo d" using l(2) by (simp add: isDemo_def)
  with g l show "\<exists>d cb' p' w'. getRealtime cfg lat lon (cb, p, w) = (Settled (Inr d), cb', p', w')
                \<and> raw d = DemoRateLimited lat lon \<and> isDemo d
                \<and> cache p' (cacheKey cfg lat lon) = Some \<lparr>entry_value = d, expiresAt = clock w' + cacheTtlMs cfg\<rparr>
                \<and> rateLimitResetTime p' = clock w' + 60000
                \<and> clock w' < rateLimitResetTime p'
                \<and> calls w' = calls w + 4"
    by simp
next
  show "fst (getRealtime cfg lat lon (cb, p, w)) \<noteq> Settled (Inl (AxiosError (Some 429)))"
    by (rule getRealtime_never_429)
qed

theorem rate_limit_serves_demo_data_witness:
  "exhaustedOn429 (snd (snd afterFetch))
   \<and> fst (getRealtime metricConfig 0 0 afterFetch)
       = Settled (Inr \<lparr>temperatureC = Some 20, windSpeedMps = Some 1, precipitationMmHr = Some 0,
                        raw = DemoRateLimited 0 0\<rparr>)
   \<and> clock (snd (snd afterRateLimit)) < rateLimitResetTime (fst (snd afterRateLimit))
   \<and> fst (getRealtime metricConfig 1 1 afterRateLimit)
       = Settled (Inr \<lparr>temperatureC = Some 20, windSpeedMps = Some 1, precipitationMmHr = Some 0,
                        raw = DemoCooldown 1 1\<rparr>)
   \<and> cacheHit (fst (snd (snd (getRealtime metricConfig 1 1 afterRateLimit)))) (cacheKey metricConfig 1 1) 1000
       = Some \<lparr>temperatureC = Some 20, windSpeedMps = Some 1, precipitationMmHr = Some 0, raw = DemoCooldown 1 1\<rparr>"
proof -
  let ?cb1 = "fst afterFetch" and ?p1 = "fst (snd afterFetch)" and ?w1 = "snd (snd afterFetch)"
  let ?cb2 = "fst afterRateLimit" and ?p2 = "fst (snd afterRateLimit)" and ?w2 = "snd (snd afterRateLimit)"
  have h1: "redisGet ?w1 (cacheKey metricConfig 0 0) = None \<and> cacheHit ?p1 (cacheKey metricConfig 0 0) (clock ?w1) = None
      \<and> inFlight ?p1 (cacheKey metricConfig 0 0) = None \<and> \<not> clock ?w1 < rateLimitResetTime ?p1
      \<and> (state ?cb1 \<noteq> OPEN \<or> recoveryTimeout breakerConfig \<le> clock ?w1 - lastFailureTime ?cb1)
      \<and> exhaustedOn429 ?w1"
    by code_simp
  have h2: "redisGet ?w2 (cacheKey metricConfig 1 1) = None \<and> cacheHit ?p2 (cacheKey metricConfig 1 1) (clock ?w2) = None
      \<and> inFlight ?p2 (cacheKey metricConfig 1 1) = None \<and> clock ?w2 < rateLimitResetTime ?p2"
    by code_simp
  have c1: "\<exists>d cb' p' w'. getRealtime metricConfig 0 0 afterFetch = (Settled (Inr d), cb', p', w')
                \<and> raw d = DemoRateLimited 0 0 \<and> isDemo d
                \<and> cache p' (cacheKey metricConfig 0 0) = Some \<lparr>entry_value = d, expiresAt = clock w' + cacheTtlMs metricConfig\<rparr>
                \<and> rateLimitResetTime p' = clock w' + 60000
                \<and> clock w' < rateLimitResetTime p'
                \<and> calls w' = calls ?w1 + 4"
    using rate_limit_serves_demo_data [of ?w1 metricConfig 0 0 ?p1 ?cb1] h1 by simp
  have c2: "\<exists>d w'. getRealtime metricConfig 1 1 afterRateLimit
                   = (Settled (Inr d), ?cb2,
                      ?p2\<lparr>cache := (cache ?p2)(cacheKey metricConfig 1 1 \<mapsto>
                           \<lparr>entry_value = d, expiresAt = clock ?w2 + cacheTtlMs metricConfig\<rparr>)\<rparr>, w')
                \<and> raw d = DemoCooldown 1 1 \<and> isDemo d \<and> calls w' = calls ?w2"
    using rate_limit_serves_demo_data [of ?w2 metricConfig 1 1 ?p2 ?cb2] h2 by simp
  have v: "fst (getRealtime metricConfig 0 0 afterFetch)
       = Settled (Inr \<lparr>temperatureC = Some 20, windSpeedMps = Some 1, precipitationMmHr = Some 0,
                        raw = DemoRateLimited 0 0\<rparr>)
   \<and> fst (getRealtime metricConfig 1 1 afterRateLimit)
       = Settled (Inr \<lparr>temperatureC = Some 20, windSpeedMps = Some 1, precipitationMmHr = Some 0,
                        raw = DemoCooldown 1 1\<rparr>)
   \<and> cacheHit (fst (snd (snd (getRealtime metricConfig 1 1 afterRateLimit)))) (cacheKey metricConfig 1 1) 1000
       = Some \<lparr>temperatureC = Some 20, windSpeedMps = Some 1, precipitationMmHr = Some 0, raw = DemoCooldown 1 1\<rparr>"
    by code_simp
  from c1 c2 h1 h2 v show ?thesis by simp
qed

text \<open>
  The claim as stated fails for a call that hits the cache: (42, -71) is fetched from
  the upstream and cached for five minutes, then a fetch for (0, 0) uses up its
  attempts on 429 and starts the cooldown; during the cooldown, a call for (42, -71)
  resolves with the cached upstream observation, which is not demo data.
\<close>

theorem cooldown_serves_cached_observation:
  "fst (getRealtime metricConfig 0 0 afterFetch)
     = Settled (Inr \<lparr>temperatureC = Some 20, windSpeedMps = Some 1, precipitationMmHr = Some 0, raw = DemoRateLimited 0 0\<rparr>)
   \<and> clock (snd (snd afterRateLimit)) < rateLimitResetTime (fst (snd afterRateLimit))
   \<and> fst (getRealtime metricConfig 42 (-71) afterRateLimit)
     = Settled (Inr \<lparr>temperatureC = Some 21, windSpeedMps = Some 3, precipitationMmHr = Some 0, raw = UpstreamBody\<rparr>)
   \<and> \<not> isDemo \<lparr>temperatureC = Some 21, windSpeedMps = Some 3, precipitationMmHr = Some 0, raw = UpstreamBody\<rparr>"
  by code_simp

subsection \<open>The write after an evaluation\<close>

lemma update_written:
  "alertId \<in> set (map alert_id table) \<Longrightarrow> updateAlertAfterEvaluation alertId ev now table = Inr (written alertId ev now table)"
  by (simp add: updateAlertAfterEvaluation_def written_def)

text \<open>
  The event-driven path as it is written: behind its guard the write is made, for an
  object whose parameter name \<^verbatim>\<open>extractWeatherValue\<close> knows.
\<close>

lemma event_path_writes:
  assumes "extractWeatherValue wd (any_parameter alert) = Some v" "alert_id alert \<in> set (map alert_id table)"
  shows "fst (snd (evaluateAlertWithEvent alert wd t0 now (table, k)))
         = written (alert_id alert)
             \<lparr>currentValue = Some v,
              triggered = triggered (evaluateAlertConditionAny (toUpperCase (any_parameter alert)) (any_operator alert)
                                      (any_value alert) (selectedValues (any_parameter alert) v))\<rparr> now table"
  using assms update_written [OF assms(2)]
  by (simp add: evaluateAlertWithEvent_def Let_def split: sum.splits)

lemma event_path_skips:
  assumes "extractWeatherValue wd (any_parameter alert) = None"
  shows "evaluateAlertWithEvent alert wd t0 now st = (Inr (), st)"
  using assms by (simp add: evaluateAlertWithEvent_def)

text \<open>
  The names that \<^verbatim>\<open>extractWeatherValue\<close> knows are not those of the rows: for every
  row of the repository, whatever the observation holds, the lookup takes its
  \<^verbatim>\<open>default\<close> branch and the row is skipped.
\<close>

lemma extractWeatherValue_row: "extractWeatherValue wd (any_parameter (asAny row)) = None"
  by (cases "parameter row") (simp_all add: asAny_def extractWeatherValue_def)

lemma row_is_skipped: "evaluateAlertWithEvent (asAny row) wd t0 now st = (Inr (), st)"
  by (rule event_path_skips) (rule extractWeatherValue_row)

lemma rows_are_skipped: "evaluateEach (map asAny rows) wd t0 now st = (replicate (length rows) (Inr ()), st)"
  by (induction rows) (simp_all add: row_is_skipped)

lemma handleWeatherUpdate_rows:
  "handleWeatherUpdate wd t0 now st
     = (replicate (length (findAlertsForLocation (fst st) (ev_latitude wd) (ev_longitude wd) (1/100))) (Inr ()), st)"
  by (simp add: handleWeatherUpdate_def rows_are_skipped Let_def)

text \<open>The scheduler path writes the evaluation of every row it evaluates.\<close>

lemma scheduler_path_writes:
  assumes "latitude alert = Some lat" "longitude alert = Some lon"
    "weather lat lon scheduled p = (Inr wd, p')" "alert_id alert \<in> set (map alert_id table)"
  shows "executeLoop weather now (alert # rest) (p, table) acc
         = executeLoop weather now rest
             (p', written (alert_id alert)
                    (evaluateAlertCondition (parameter alert) (operator alert) (threshold alert) (scheduledValues wd)) now table)
             (if triggered (evaluateAlertCondition (parameter alert) (operator alert) (threshold alert) (scheduledValues wd))
              then acc @ [alert\<lparr>lastValue := currentValue (evaluateAlertCondition (parameter alert) (operator alert)
                                                   (threshold alert) (scheduledValues wd))\<rparr>]
              else acc)"
  using assms update_written [OF assms(4)]
  by (simp add: Let_def del: evaluateAlertCondition.simps)

lemma scheduler_writes_null_reading:
  "EvaluateAllAlertsUseCase_execute (steady noReadings) 1000 ((), [hotRecord])
     = (Inr [], (), [hotRecord\<lparr>lastValue := None, lastState := Some False, lastEvaluatedAt := Some 1000\<rparr>])"
  by (simp add: EvaluateAllAlertsUseCase_execute_def updateAlertAfterEvaluation_def hotRecord_def steady_def
        noReadings_def scheduledValues_def)

lemma toUpperCase_names:
  "toUpperCase ''temperature'' = ''TEMPERATURE''"
  "toUpperCase ''precipitation'' = ''PRECIPITATION''"
  "toUpperCase ''windSpeed'' = ''WINDSPEED''"
  by code_simp+

text \<open>
  Claim C8 says that for every alert matched to an observation the engine writes
  \<open>lastValue = currentValue\<close>, \<open>lastState = triggered\<close> and
  \<open>lastEvaluatedAt = now\<close> unconditionally. On the event-driven path no row of the
  repository is ever written: \<^verbatim>\<open>handleWeatherUpdate\<close> settles every matched row as
  fulfilled and leaves the table and the broker as they were, for every table, every
  observation and every state of the broker. So the row for a temperature above 30 at
  (42, -71) is matched by an observation of 35 degrees at its location and keeps
  \<open>lastEvaluatedAt = None\<close>, while a sweep of the scheduler path that reads the
  same 35 degrees writes the value, the state and the time.
\<close>

theorem event_path_never_writes:
  "handleWeatherUpdate wd t0 now (table, k)
     = (replicate (length (findAlertsForLocation table (ev_latitude wd) (ev_longitude wd) (1/100))) (Inr ()), table, k)
   \<and> findAlertsForLocation [hotRecord] 42 (-71) (1/100) = [hotRecord]
   \<and> temperatureC (observed 35) = Some 35
   \<and> ev_latitude (observed 35) = 42 \<and> ev_longitude (observed 35) = -71
   \<and> handleWeatherUpdate (observed 35) 0 1000 ([hotRecord], brokerUp) = ([Inr ()], [hotRecord], brokerUp)
   \<and> lastEvaluatedAt hotRecord = None
   \<and> EvaluateAllAlertsUseCase_execute (steady heat) 1000 ((), [hotRecord])
       = (Inr [hotRecord\<lparr>lastValue := Some 35\<rparr>], (), [hotTriggered])"
proof -
  have matched: "findAlertsForLocation [hotRecord] 42 (-71) (1/100) = [hotRecord]"
    by (simp add: findAlertsForLocation_def withinRadius_def hotRecord_def)
  have obs: "temperatureC (observed 35) = Some 35" "ev_latitude (observed 35) = 42" "ev_longitude (observed 35) = -71"
    by (simp_all add: observed_def)
  have skipped: "handleWeatherUpdate (observed 35) 0 1000 ([hotRecord], brokerUp) = ([Inr ()], [hotRecord], brokerUp)"
    using handleWeatherUpdate_rows [of "observed 35" 0 1000 "([hotRecord], brokerUp)"] matched obs by simp
  have sweep: "EvaluateAllAlertsUseCase_execute (steady heat) 1000 ((), [hotRecord])
       = (Inr [hotRecord\<lparr>lastValue := Some 35\<rparr>], (), [hotTriggered])"
    by (simp add: EvaluateAllAlertsUseCase_execute_def updateAlertAfterEvaluation_def hotRecord_def hotTriggered_def
          steady_def heat_def scheduledValues_def)
  have never: "lastEvaluatedAt hotRecord = None" by (simp add: hotRecord_def)
  from handleWeatherUpdate_rows [of wd t0 now "(table, k)"] matched obs skipped never sweep
  show ?thesis by simp
qed

subsection \<open>Notifications and state transitions\<close>

text \<open>
  \<^verbatim>\<open>handleAlertEvaluation\<close> looks at the previous state: with the broker accepting
  messages, an evaluation event leads to one notification when it is triggered and its
  previous state is not, and to none otherwise.
\<close>

lemma handleAlertEvaluation_up:
  assumes "isConnected k" "\<not> sendRejects k"
  shows "length (notifications (handleAlertEvaluation e now k))
           = length (notifications k) + (if ae_triggered e \<and> \<not> nullish (ae_previousState e) False then 1 else 0)"
    and "isConnected (handleAlertEvaluation e now k)" and "\<not> sendRejects (handleAlertEvaluation e now k)"
  using assms by (simp_all add: handleAlertEvaluation_def publishNotification_def Let_def)

lemma handleAlertEvaluation_silent:
  assumes "\<not> ae_triggered e \<or> ae_previousState e = Some True"
  shows "handleAlertEvaluation e now k = k"
  using assms by (auto simp add: handleAlertEvaluation_def)

text \<open>
  No evaluation event is published for a row of the repository, so the event-driven
  path sends no notification at all.
\<close>

lemma handlePublished_none:
  "alertEvaluations k' = alertEvaluations k \<Longrightarrow> handlePublished k now k' = k'"
  by (simp add: handlePublished_def)

lemma processWeatherEvent_rows: "processWeatherEvent wd now st = st"
  by (cases st) (simp add: processWeatherEvent_def handleWeatherUpdate_rows handlePublished_none)

lemma eventPath_rows: "eventPath wds now st = st"
  by (induction wds arbitrary: st) (simp_all add: processWeatherEvent_rows)

text \<open>The scheduler path notifies only for rows whose condition holds of the value just read.\<close>

lemma triggered_condition:
  assumes "triggered (evaluateAlertCondition p op t vs)"
  shows "\<exists>v. currentValue (evaluateAlertCondition p op t vs) = Some v \<and> compare_spec op v t"
  using assms by (cases "valueMap vs p"; cases op) auto

lemma executeLoop_triggered:
  assumes "executeLoop weather now alerts st acc = (Inr result, st')" "\<forall>a \<in> set acc. conditionHolds a"
  shows "\<forall>a \<in> set result. conditionHolds a"
  using assms
proof (induction alerts arbitrary: st acc)
  case Nil
  then show ?case by simp
next
  case (Cons alert rest)
  show ?case
  proof (cases "latitude alert")
    case None
    with Cons.prems have "executeLoop weather now rest st acc = (Inr result, st')" by simp
    from Cons.IH [OF this Cons.prems(2)] show ?thesis .
  next
    case lat: (Some lat)
    show ?thesis
    proof (cases "longitude alert")
      case None
      with lat Cons.prems have "executeLoop weather now rest st acc = (Inr result, st')" by simp
      from Cons.IH [OF this Cons.prems(2)] show ?thesis .
    next
      case lon: (Some lon)
      obtain r p' where g: "weather lat lon scheduled (fst st) = (r, p')"
        by (cases "weather lat lon scheduled (fst st)")
      show ?thesis
      proof (cases r)
        case (Inl e)
        with lat lon g Cons.prems(1) show ?thesis by simp
      next
        case (Inr wd)
        let ?ev = "evaluateAlertCondition (parameter alert) (operator alert) (threshold alert) (scheduledValues wd)"
        let ?acc = "if triggered ?ev then acc @ [alert\<lparr>lastValue := currentValue ?ev\<rparr>] else acc"
        show ?thesis
        proof (cases "updateAlertAfterEvaluation (alert_id alert) ?ev now (snd st)")
          case (Inl e)
          with lat lon g Inr Cons.prems(1) show ?thesis by (simp add: Let_def del: evaluateAlertCondition.simps)
        next
          case upd: (Inr table')
          with lat lon g Inr Cons.prems(1)
          have run: "executeLoop weather now rest (p', table') ?acc = (Inr result, st')"
            by (simp add: Let_def del: evaluateAlertCondition.simps)
          have "\<forall>a \<in> set ?acc. conditionHolds a"
          proof (cases "triggered ?ev")
            case True
            from triggered_condition [OF True] obtain v where "currentValue ?ev = Some v"
              "compare_spec (operator alert) v (threshold alert)" by blast
            then have "conditionHolds (alert\<lparr>lastValue := currentValue ?ev\<rparr>)"
              by (simp add: conditionHolds_def del: evaluateAlertCondition.simps)
            with True Cons.prems(2) show ?thesis by (simp del: evaluateAlertCondition.simps)
          next
            case False
            with Cons.prems(2) show ?thesis by (simp del: evaluateAlertCondition.simps)
          qed
          from Cons.IH [OF run this] show ?thesis .
        qed
      qed
    qed
  qed
qed

lemma sendNotification_for: "d \<in> set (sendNotification a) \<Longrightarrow> deliveredFor d = a"
  by (auto simp add: sendNotification_def split: if_splits)

lemma schedulerTick_only_triggered:
  "d \<in> set (fst (schedulerTick weather now st)) \<Longrightarrow> conditionHolds (deliveredFor d)"
proof -
  assume d: "d \<in> set (fst (schedulerTick weather now st))"
  obtain r st' where e: "EvaluateAllAlertsUseCase_execute weather now st = (r, st')"
    by (cases "EvaluateAllAlertsUseCase_execute weather now st")
  show ?thesis
  proof (cases r)
    case (Inl err)
    with e d show ?thesis by (simp add: schedulerTick_def)
  next
    case (Inr result)
    with e have "executeLoop weather now (snd st) st [] = (Inr result, st')"
      by (simp add: EvaluateAllAlertsUseCase_execute_def)
    from executeLoop_triggered [OF this] have all: "\<forall>a \<in> set result. conditionHolds a" by simp
    from e Inr d obtain a where "a \<in> set result" "d \<in> set (sendNotification a)"
      by (auto simp add: schedulerTick_def)
    with all sendNotification_for [of d a] show ?thesis by auto
  qed
qed

text \<open>
  The scheduler path does not look at the previous state. What a sweep sends is what
  it would send if no row had ever been evaluated: the fields \<open>lastValue\<close>,
  \<open>lastState\<close> and \<open>lastEvaluatedAt\<close> of the rows have no part in it.
\<close>

lemma neverEvaluated_same:
  assumes "neverEvaluated a = neverEvaluated b"
  shows "alert_id a = alert_id b" "latitude a = latitude b" "longitude a = longitude b"
    "parameter a = parameter b" "operator a = operator b" "threshold a = threshold b"
    "contactEmail a = contactEmail b" "contactPhone a = contactPhone b"
proof -
  have "alert_id (neverEvaluated a) = alert_id (neverEvaluated b)"
    "latitude (neverEvaluated a) = latitude (neverEvaluated b)"
    "longitude (neverEvaluated a) = longitude (neverEvaluated b)"
    "parameter (neverEvaluated a) = parameter (neverEvaluated b)"
    "operator (neverEvaluated a) = operator (neverEvaluated b)"
    "threshold (neverEvaluated a) = threshold (neverEvaluated b)"
    "contactEmail (neverEvaluated a) = contactEmail (neverEvaluated b)"
    "contactPhone (neverEvaluated a) = contactPhone (neverEvaluated b)"
    using assms by simp_all
  then show "alert_id a = alert_id b" "latitude a = latitude b" "longitude a = longitude b"
    "parameter a = parameter b" "operator a = operator b" "threshold a = threshold b"
    "contactEmail a = contactEmail b" "contactPhone a = contactPhone b"
    by (simp_all add: neverEvaluated_def)
qed

lemma neverEvaluated_idem: "neverEvaluated (neverEvaluated a) = neverEvaluated a"
  by (simp add: neverEvaluated_def)

lemma neverEvaluated_lastValue: "neverEvaluated (a\<lparr>lastValue := v\<rparr>) = neverEvaluated a"
  by (simp add: neverEvaluated_def)

lemma neverEvaluated_written: "map neverEvaluated (written i ev now table) = map neverEvaluated table"
  by (induction table) (simp_all add: written_def neverEvaluated_def)

lemma neverEvaluated_ids:
  assumes "map neverEvaluated t1 = map neverEvaluated t2"
  shows "map alert_id t1 = map alert_id t2"
proof -
  have "map alert_id t = map alert_id (map neverEvaluated t)" for t :: "AlertRecord list"
    by (simp add: neverEvaluated_def)
  with assms show ?thesis by metis
qed

lemma update_missing:
  "alertId \<notin> set (map alert_id table) \<Longrightarrow> updateAlertAfterEvaluation alertId ev now table = Inl (RecordNotFound alertId)"
  by (simp add: updateAlertAfterEvaluation_def)

lemma executeLoop_ignores_history:
  assumes "map neverEvaluated alerts1 = map neverEvaluated alerts2"
    "map neverEvaluated t1 = map neverEvaluated t2"
    "map neverEvaluated acc1 = map neverEvaluated acc2"
  shows "map_sum id (map neverEvaluated) (fst (executeLoop weather now alerts1 (p, t1) acc1))
           = map_sum id (map neverEvaluated) (fst (executeLoop weather now alerts2 (p, t2) acc2))
       \<and> fst (snd (executeLoop weather now alerts1 (p, t1) acc1))
           = fst (snd (executeLoop weather now alerts2 (p, t2) acc2))
       \<and> map neverEvaluated (snd (snd (executeLoop weather now alerts1 (p, t1) acc1)))
           = map neverEvaluated (snd (snd (executeLoop weather now alerts2 (p, t2) acc2)))"
  using assms
proof (induction alerts1 arbitrary: alerts2 p t1 t2 acc1 acc2)
  case Nil
  then show ?case by simp
next
  case (Cons a1 rest1)
  from Cons.prems(1) obtain a2 rest2 where alerts2: "alerts2 = a2 # rest2"
    and same: "neverEvaluated a1 = neverEvaluated a2"
    and rest: "map neverEvaluated rest1 = map neverEvaluated rest2"
    by (cases alerts2) auto
  note f = neverEvaluated_same [OF same]
  show ?case
  proof (cases "latitude a1")
    case None
    with f(2) have "latitude a2 = None" by simp
    with None alerts2 Cons.IH [OF rest Cons.prems(2,3)] show ?thesis by simp
  next
    case lat: (Some lat)
    with f(2) have lat2: "latitude a2 = Some lat" by simp
    show ?thesis
    proof (cases "longitude a1")
      case None
      with f(3) have "longitude a2 = None" by simp
      with None lat lat2 alerts2 Cons.IH [OF rest Cons.prems(2,3)] show ?thesis by simp
    next
      case lon: (Some lon)
      with f(3) have lon2: "longitude a2 = Some lon" by simp
      obtain r p' where g: "weather lat lon scheduled p = (r, p')"
        by (cases "weather lat lon scheduled p")
      show ?thesis
      proof (cases r)
        case (Inl e)
        with lat lon lat2 lon2 g alerts2 Cons.prems(2) show ?thesis by simp
      next
        case (Inr wd)
        define ev where "ev = evaluateAlertCondition (parameter a1) (operator a1) (threshold a1) (scheduledValues wd)"
        have ev2: "evaluateAlertCondition (parameter a2) (operator a2) (threshold a2) (scheduledValues wd) = ev"
          using f(4,5,6) by (simp add: ev_def)
        note ids = neverEvaluated_ids [OF Cons.prems(2)]
        show ?thesis
        proof (cases "alert_id a1 \<in> set (map alert_id t1)")
          case False
          with ids f(1) have no2: "alert_id a2 \<notin> set (map alert_id t2)" by simp
          have one: "executeLoop weather now (a1 # rest1) (p, t1) acc1 = (Inl (RecordNotFound (alert_id a1)), p', t1)"
            using lat lon g Inr update_missing [OF False, of ev now]
            by (simp add: ev_def [symmetric] Let_def del: evaluateAlertCondition.simps)
          have two: "executeLoop weather now (a2 # rest2) (p, t2) acc2 = (Inl (RecordNotFound (alert_id a2)), p', t2)"
            using lat2 lon2 g Inr update_missing [OF no2, of ev now]
            by (simp add: ev2 Let_def del: evaluateAlertCondition.simps)
          from one two alerts2 f(1) Cons.prems(2) show ?thesis by simp
        next
          case True
          with ids f(1) have in2: "alert_id a2 \<in> set (map alert_id t2)" by simp
          let ?acc1 = "if triggered ev then acc1 @ [a1\<lparr>lastValue := currentValue ev\<rparr>] else acc1"
          let ?acc2 = "if triggered ev then acc2 @ [a2\<lparr>lastValue := currentValue ev\<rparr>] else acc2"
          have one: "executeLoop weather now (a1 # rest1) (p, t1) acc1
                       = executeLoop weather now rest1 (p', written (alert_id a1) ev now t1) ?acc1"
            using scheduler_path_writes [OF lat lon _ True, of weather p wd p' now rest1 acc1] g Inr
            by (simp add: ev_def [symmetric] del: evaluateAlertCondition.simps)
          have two: "executeLoop weather now (a2 # rest2) (p, t2) acc2
                       = executeLoop weather now rest2 (p', written (alert_id a2) ev now t2) ?acc2"
            using scheduler_path_writes [OF lat2 lon2 _ in2, of weather p wd p' now rest2 acc2] g Inr
            by (simp add: ev2 del: evaluateAlertCondition.simps)
          have tables: "map neverEvaluated (written (alert_id a1) ev now t1)
                          = map neverEvaluated (written (alert_id a2) ev now t2)"
            using Cons.prems(2) by (simp add: neverEvaluated_written)
          have accs: "map neverEvaluated ?acc1 = map neverEvaluated ?acc2"
            using Cons.prems(3) same by (simp add: neverEvaluated_lastValue)
          from Cons.IH [OF rest tables accs] one two alerts2 show ?thesis by simp
        qed
      qed
    qed
  qed
qed

lemma sendNotification_ignores_history:
  assumes "neverEvaluated a = neverEvaluated b"
  shows "map aboutNeverEvaluated (sendNotification a) = map aboutNeverEvaluated (sendNotification b)"
  using assms neverEvaluated_same(7,8) [OF assms]
  by (simp add: sendNotification_def)

lemma deliveries_ignore_history:
  assumes "map neverEvaluated l1 = map neverEvaluated l2"
  shows "map aboutNeverEvaluated (concat (map sendNotification l1))
           = map aboutNeverEvaluated (concat (map sendNotification l2))"
  using assms
proof (induction l1 arbitrary: l2)
  case Nil
  then show ?case by simp
next
  case (Cons a l1)
  then obtain b l2' where l2: "l2 = b # l2'" and ab: "neverEvaluated a = neverEvaluated b"
    and rest: "map neverEvaluated l1 = map neverEvaluated l2'"
    by (cases l2) auto
  from Cons.IH [OF rest] sendNotification_ignores_history [OF ab] l2 show ?case by simp
qed

lemma schedulerTick_ignores_history:
  "map aboutNeverEvaluated (fst (schedulerTick weather now (p, table)))
     = map aboutNeverEvaluated (fst (schedulerTick weather now (p, map neverEvaluated table)))"
proof -
  let ?one = "executeLoop weather now table (p, table) []"
  let ?two = "executeLoop weather now (map neverEvaluated table) (p, map neverEvaluated table) []"
  have rows: "map neverEvaluated table = map neverEvaluated (map neverEvaluated table)"
    by (simp add: neverEvaluated_idem)
  from executeLoop_ignores_history [OF rows rows, of "[]" "[]" weather now p]
  have results: "map_sum id (map neverEvaluated) (fst ?one) = map_sum id (map neverEvaluated) (fst ?two)"
    by simp
  show ?thesis
  proof (cases "fst ?one")
    case (Inl e)
    with results have "fst ?two = Inl e" by (cases "fst ?two") simp_all
    with Inl show ?thesis
      by (auto simp add: schedulerTick_def EvaluateAllAlertsUseCase_execute_def split: prod.splits)
  next
    case (Inr l1)
    with results obtain l2 where two: "fst ?two = Inr l2" and same: "map neverEvaluated l1 = map neverEvaluated l2"
      by (cases "fst ?two") simp_all
    from deliveries_ignore_history [OF same] Inr two show ?thesis
      by (auto simp add: schedulerTick_def EvaluateAllAlertsUseCase_execute_def split: prod.splits)
  qed
qed

text \<open>
  Claim C1 says that a notification is emitted exactly once for each transition from
  not triggered to triggered and exactly once for each transition from triggered to
  not triggered, and none for repeated triggered evaluations, on both paths. The
  scheduler path sends for every row that a sweep finds triggered, whatever its state
  was before: the row for a temperature above 30 is never evaluated before the sweep at
  1000 ms, which reads 35 degrees, writes the state triggered and sends an email; the
  sweep at 2000 ms reads 35 degrees again, finds the state triggered, leaves it
  triggered, and sends the email again. For every provider and every table, what a
  sweep sends is what it would send if no row had ever been evaluated. On the
  event-driven path no weather event leads to a notification for a row of the
  repository, whatever the observations are: the table and the broker stay as they
  were.
\<close>

theorem scheduler_notifies_on_every_sweep:
  "lastState hotRecord = None
   \<and> schedulerTick (steady heat) 1000 ((), [hotRecord])
       = ([Email ''user@example.com'' (hotRecord\<lparr>lastValue := Some 35\<rparr>)], (), [hotTriggered])
   \<and> lastState hotTriggered = Some True
   \<and> schedulerTick (steady heat) 2000 ((), [hotTriggered])
       = ([Email ''user@example.com'' hotTriggered], (), [hotTriggered\<lparr>lastEvaluatedAt := Some 2000\<rparr>])
   \<and> lastState (hotTriggered\<lparr>lastEvaluatedAt := Some 2000\<rparr>) = Some True
   \<and> map aboutNeverEvaluated (fst (schedulerTick weather now (p, table)))
       = map aboutNeverEvaluated (fst (schedulerTick weather now (p, map neverEvaluated table)))
   \<and> eventPath wds now (table, k) = (table, k)"
proof -
  have first: "schedulerTick (steady heat) 1000 ((), [hotRecord])
       = ([Email ''user@example.com'' (hotRecord\<lparr>lastValue := Some 35\<rparr>)], (), [hotTriggered])"
    by (simp add: schedulerTick_def EvaluateAllAlertsUseCase_execute_def updateAlertAfterEvaluation_def
          sendNotification_def hotRecord_def hotTriggered_def steady_def heat_def scheduledValues_def)
  have second: "schedulerTick (steady heat) 2000 ((), [hotTriggered])
       = ([Email ''user@example.com'' hotTriggered], (), [hotTriggered\<lparr>lastEvaluatedAt := Some 2000\<rparr>])"
    by (simp add: schedulerTick_def EvaluateAllAlertsUseCase_execute_def updateAlertAfterEvaluation_def
          sendNotification_def hotRecord_def hotTriggered_def steady_def heat_def scheduledValues_def)
  have states: "lastState hotRecord = None" "lastState hotTriggered = Some True"
    "lastState (hotTriggered\<lparr>lastEvaluatedAt := Some 2000\<rparr>) = Some True"
    by (simp_all add: hotRecord_def hotTriggered_def)
  from first second states schedulerTick_ignores_history [of weather now p table]
    eventPath_rows [of wds now "(table, k)"]
  show ?thesis by simp
qed

text \<open>
  Neither path sends anything for a transition to not triggered: an evaluation event
  that is not triggered is only logged by \<^verbatim>\<open>handleAlertEvaluation\<close>, and a sweep of
  the scheduler sends only for rows it finds triggered. The row that the sweep at
  1000 ms has left triggered is evaluated at 3000 ms with no temperature reading: its
  state becomes not triggered and nothing is sent.
\<close>

lemma resolved_alert_is_not_notified:
  "schedulerTick (steady noReadings) 3000 ((), [hotTriggered])
     = ([], (), [hotTriggered\<lparr>lastValue := None, lastState := Some False, lastEvaluatedAt := Some 3000\<rparr>])"
  by (simp add: schedulerTick_def EvaluateAllAlertsUseCase_execute_def updateAlertAfterEvaluation_def
        hotRecord_def hotTriggered_def steady_def noReadings_def scheduledValues_def)

subsection \<open>Failures during a batch\<close>

text \<open>
  On the event-driven path every matched alert is evaluated and settles on its own:
  there are as many settlements as alerts, and an alert whose write is rejected does
  not keep the next one from being evaluated and written. The second lemma runs the
  fan-out on two objects with a lower-case parameter name, for which the write is
  reached; the first object's row has been deleted.
\<close>

lemma evaluateEach_settles_every_alert:
  "length (fst (evaluateEach alerts wd t0 now st)) = length alerts"
proof (induction alerts arbitrary: st)
  case Nil
  then show ?case by simp
next
  case (Cons alert rest)
  obtain r st' where one: "evaluateAlertWithEvent alert wd t0 now st = (r, st')"
    by (cases "evaluateAlertWithEvent alert wd t0 now st")
  obtain rs st'' where more: "evaluateEach rest wd t0 now st' = (rs, st'')"
    by (cases "evaluateEach rest wd t0 now st'")
  from Cons.IH [of st'] more have "length rs = length rest" by simp
  with one more show ?case by simp
qed

lemma fan_out_goes_on_after_rejection:
  "fst (evaluateEach [deletedAlert, hotAlert] (observed 35) 0 1000 ([hotRecord], brokerUp))
     = [Inl (RecordNotFound ''gone''), Inr ()]
   \<and> map lastState (fst (snd (evaluateEach [deletedAlert, hotAlert] (observed 35) 0 1000 ([hotRecord], brokerUp))))
     = [Some True]"
  by code_simp

text \<open>
  Claim C2 says that an exception thrown while evaluating one alert does not prevent
  the evaluation of the remaining alerts, in the fan-out of the event-driven path and
  in the sweep of the scheduler path. The loop of
  \<^verbatim>\<open>EvaluateAllAlertsUseCase.execute\<close> has no handler around its body: the weather
  fetch of the first alert rejects, \<^verbatim>\<open>execute\<close> rejects with it, and the second alert,
  whose fetch would have resolved, is never evaluated; the scheduler logs the error and
  the sweep is over.
\<close>

theorem sweep_stops_at_first_failure:
  "failsAtLatitude42 40 (-74) scheduled () = (Inr heat, ())
   \<and> EvaluateAllAlertsUseCase_execute failsAtLatitude42 1000 ((), [hotRecord, nycRecord])
       = (Inl (AxiosError (Some 400)), (), [hotRecord, nycRecord])
   \<and> schedulerTick failsAtLatitude42 1000 ((), [hotRecord, nycRecord]) = ([], (), [hotRecord, nycRecord])
   \<and> lastEvaluatedAt nycRecord = None"
  by (simp add: EvaluateAllAlertsUseCase_execute_def schedulerTick_def failsAtLatitude42_def hotRecord_def nycRecord_def)

subsection \<open>Overlapping calls of getRealtime\<close>

text \<open>The retry loop does not touch \<open>inFlight\<close>, and does not read it.\<close>

lemma attemptLoop_inFlight:
  "inFlight (fst (snd (attemptLoop cfg lat lon attempt st))) = inFlight (fst st)"
proof (induction cfg lat lon attempt st rule: attemptLoop.induct)
  case (1 cfg lat lon attempt st)
  show ?case
  proof (cases "attempt > maxAttempts")
    case True
    then show ?thesis by (subst attemptLoop.simps) simp
  next
    case gt: False
    then have le: "attempt \<le> maxAttempts" by simp
    obtain outcome w1 where ax: "axios_get (snd st) = (outcome, w1)" by (cases "axios_get (snd st)")
    show ?thesis
    proof (cases outcome)
      case (Response vals remaining)
      show ?thesis
        unfolding attemptLoop_response [OF le ax [unfolded Response], of cfg lat lon]
        by (simp add: Let_def split: option.splits)
    next
      case (Failure status retryAfter)
      note eq = attemptLoop_failure [OF le ax [unfolded Failure], of cfg lat lon]
      show ?thesis
      proof (cases "\<not> isRetryable status \<or> attempt = maxAttempts")
        case True
        then show ?thesis unfolding eq by (simp add: Let_def split: prod.splits)
      next
        case False
        obtain delayMs w2 where b: "backoff retryAfter attempt w1 = (delayMs, w2)"
          by (cases "backoff retryAfter attempt w1")
        have "inFlight (fst (snd (attemptLoop cfg lat lon (attempt + 1) (fst st, sleep delayMs w2))))
                = inFlight (fst (fst st, sleep delayMs w2))"
          by (rule "1.IH" [OF gt refl refl ax [symmetric] Failure False refl b [symmetric]])
        then show ?thesis unfolding eq using False b by simp
      qed
    qed
  qed
qed

lemma registered_initial: "registered cfg (initial t0)"
  by (simp add: registered_def initial_def newProvider_def)

lemma serveCooldown_inFlight: "inFlight (fst (snd (serveCooldown cfg lat lon now st))) = inFlight (fst st)"
  by (simp add: serveCooldown_def Let_def split: prod.splits)

lemma registered_call:
  assumes "registered cfg s"
  shows "registered cfg (snd (call cfg lat lon w s))"
proof (cases "lookup (provider s) (cacheKey cfg lat lon) (clock w) (redisGet w (cacheKey cfg lat lon))")
  case (Hit v)
  with assms show ?thesis by (simp add: call_def)
next
  case (Pending existing)
  with assms show ?thesis by (simp add: call_def)
next
  case Cooldown
  obtain d p' w1 where sc: "serveCooldown cfg lat lon (clock w) (provider s, w) = (d, p', w1)"
    by (cases "serveCooldown cfg lat lon (clock w) (provider s, w)")
  with serveCooldown_inFlight [of cfg lat lon "clock w" "(provider s, w)"]
  have "inFlight p' = inFlight (provider s)" by simp
  with assms Cooldown sc show ?thesis by (simp add: call_def registered_def)
next
  case Miss
  then have free: "inFlight (provider s) (cacheKey cfg lat lon) = None"
    by (simp add: lookup_def split: option.splits if_splits)
  show ?thesis
  proof (cases "enter breakerConfig (clock w) (breaker s)")
    case (Inl e)
    with assms Miss show ?thesis by (simp add: call_def)
  next
    case (Inr cb1)
    let ?s' = "s\<lparr>breaker := cb1,
                  provider := (provider s)\<lparr>inFlight := (inFlight (provider s))(cacheKey cfg lat lon \<mapsto> nextId s)\<rparr>,
                  requests := (requests s)(nextId s \<mapsto> (lat, lon)),
                  nextId := nextId s + 1\<rparr>"
    from Miss Inr have c: "snd (call cfg lat lon w s) = ?s'" by (simp add: call_def)
    from assms have a1: "\<And>pid la lo. requests s pid = Some (la, lo) \<Longrightarrow> inFlight (provider s) (cacheKey cfg la lo) = Some pid"
      and a2: "\<And>key pid. inFlight (provider s) key = Some pid \<Longrightarrow> \<exists>la lo. requests s pid = Some (la, lo) \<and> cacheKey cfg la lo = key"
      and a3: "\<And>pid. requests s pid \<noteq> None \<Longrightarrow> pid < nextId s"
      and a4: "\<And>pid. settled s pid \<noteq> None \<Longrightarrow> pid < nextId s \<and> requests s pid = None"
      by (auto simp add: registered_def)
    have fresh: "requests s (nextId s) = None" using a3 [of "nextId s"] by (cases "requests s (nextId s)") auto
    have b1: "\<forall>pid la lo. requests ?s' pid = Some (la, lo) \<longrightarrow> inFlight (provider ?s') (cacheKey cfg la lo) = Some pid"
    proof (intro allI impI)
      fix pid la lo
      assume r: "requests ?s' pid = Some (la, lo)"
      show "inFlight (provider ?s') (cacheKey cfg la lo) = Some pid"
      proof (cases "pid = nextId s")
        case True
        with r show ?thesis by simp
      next
        case False
        with r have old: "requests s pid = Some (la, lo)" by simp
        from a1 [OF old] free have "cacheKey cfg la lo \<noteq> cacheKey cfg lat lon" by auto
        with a1 [OF old] show ?thesis by simp
      qed
    qed
    have b2: "\<forall>key pid. inFlight (provider ?s') key = Some pid \<longrightarrow>
            (\<exists>la lo. requests ?s' pid = Some (la, lo) \<and> cacheKey cfg la lo = key)"
    proof (intro allI impI)
      fix key pid
      assume i: "inFlight (provider ?s') key = Some pid"
      show "\<exists>la lo. requests ?s' pid = Some (la, lo) \<and> cacheKey cfg la lo = key"
      proof (cases "key = cacheKey cfg lat lon")
        case True
        with i have "pid = nextId s" by simp
        with True show ?thesis by simp
      next
        case False
        with i have old: "inFlight (provider s) key = Some pid" by simp
        from a2 [OF old] obtain la lo where r: "requests s pid = Some (la, lo)" "cacheKey cfg la lo = key" by blast
        with fresh have "pid \<noteq> nextId s" by auto
        with r show ?thesis by simp
      qed
    qed
    have b3: "\<forall>pid. requests ?s' pid \<noteq> None \<longrightarrow> pid < nextId ?s'"
      using a3 by (auto simp add: less_Suc_eq)
    have b4: "\<forall>pid. settled ?s' pid \<noteq> None \<longrightarrow> pid < nextId ?s' \<and> requests ?s' pid = None"
    proof (intro allI impI)
      fix pid
      assume "settled ?s' pid \<noteq> None"
      then have "settled s pid \<noteq> None" by simp
      from a4 [OF this] show "pid < nextId ?s' \<and> requests ?s' pid = None" by simp
    qed
    from b1 b2 b3 b4 show ?thesis unfolding c registered_def by blast
  qed
qed


lemma registered_finish:
  assumes "registered cfg s"
  shows "registered cfg (finish cfg pid w s)"
proof (cases "requests s pid")
  case None
  with assms show ?thesis by (simp add: finish_def)
next
  case (Some location)
  obtain lat lon where loc: "location = (lat, lon)" by (cases location)
  with Some have active: "requests s pid = Some (lat, lon)" by simp
  obtain r p' w' where a: "attemptLoop cfg lat lon 1 (provider s, w) = (r, p', w')"
    by (cases "attemptLoop cfg lat lon 1 (provider s, w)")
  with attemptLoop_inFlight [of cfg lat lon 1 "(provider s, w)"] have same: "inFlight p' = inFlight (provider s)"
    by simp
  define cb' where "cb' = (case r of Inr result \<Rightarrow> onSuccess (clock w') (breaker s)
                              | Inl error \<Rightarrow> onFailure breakerConfig (clock w') (breaker s))"
  let ?key = "cacheKey cfg lat lon"
  let ?s' = "s\<lparr>breaker := cb',
                provider := p'\<lparr>inFlight := (inFlight p')(?key := None)\<rparr>,
                requests := (requests s)(pid := None),
                settled := (settled s)(pid \<mapsto> r)\<rparr>"
  from active a have f: "finish cfg pid w s = ?s'" by (simp add: finish_def cb'_def)
  from assms have a1: "\<And>pid la lo. requests s pid = Some (la, lo) \<Longrightarrow> inFlight (provider s) (cacheKey cfg la lo) = Some pid"
    and a2: "\<And>key pid. inFlight (provider s) key = Some pid \<Longrightarrow> \<exists>la lo. requests s pid = Some (la, lo) \<and> cacheKey cfg la lo = key"
    and a3: "\<And>pid. requests s pid \<noteq> None \<Longrightarrow> pid < nextId s"
    and a4: "\<And>pid. settled s pid \<noteq> None \<Longrightarrow> pid < nextId s \<and> requests s pid = None"
    by (auto simp add: registered_def)
  have b1: "\<forall>q la lo. requests ?s' q = Some (la, lo) \<longrightarrow> inFlight (provider ?s') (cacheKey cfg la lo) = Some q"
  proof (intro allI impI)
    fix q la lo
    assume r: "requests ?s' q = Some (la, lo)"
    then have ne: "q \<noteq> pid" and old: "requests s q = Some (la, lo)" by (auto split: if_splits)
    have "cacheKey cfg la lo \<noteq> ?key"
    proof
      assume "cacheKey cfg la lo = ?key"
      with a1 [OF old] a1 [OF active] have "q = pid" by simp
      with ne show False by simp
    qed
    with a1 [OF old] same show "inFlight (provider ?s') (cacheKey cfg la lo) = Some q" by simp
  qed
  have b2: "\<forall>key q. inFlight (provider ?s') key = Some q \<longrightarrow>
            (\<exists>la lo. requests ?s' q = Some (la, lo) \<and> cacheKey cfg la lo = key)"
  proof (intro allI impI)
    fix key q
    assume i: "inFlight (provider ?s') key = Some q"
    then have nk: "key \<noteq> ?key" and old: "inFlight (provider s) key = Some q"
      using same by (auto split: if_splits)
    from a2 [OF old] obtain la lo where r: "requests s q = Some (la, lo)" "cacheKey cfg la lo = key" by blast
    have "q \<noteq> pid"
    proof
      assume "q = pid"
      with r active have "cacheKey cfg la lo = ?key" by simp
      with r(2) nk show False by simp
    qed
    with r show "\<exists>la lo. requests ?s' q = Some (la, lo) \<and> cacheKey cfg la lo = key" by simp
  qed
  have b3: "\<forall>q. requests ?s' q \<noteq> None \<longrightarrow> q < nextId ?s'"
  proof (intro allI impI)
    fix q
    assume "requests ?s' q \<noteq> None"
    then have "requests s q \<noteq> None" by (auto split: if_splits)
    from a3 [OF this] show "q < nextId ?s'" by simp
  qed
  have b4: "\<forall>q. settled ?s' q \<noteq> None \<longrightarrow> q < nextId ?s' \<and> requests ?s' q = None"
  proof (intro allI impI)
    fix q
    assume st: "settled ?s' q \<noteq> None"
    show "q < nextId ?s' \<and> requests ?s' q = None"
    proof (cases "q = pid")
      case True
      with a3 [of pid] active show ?thesis by simp
    next
      case False
      with st have "settled s q \<noteq> None" by simp
      from a4 [OF this] False show ?thesis by simp
    qed
  qed
  from b1 b2 b3 b4 show ?thesis unfolding f registered_def by blast
qed

lemma registered_step: "registered cfg s \<Longrightarrow> registered cfg (step cfg ev s)"
  by (cases ev) (simp_all add: registered_call registered_finish)

lemma registered_fold: "registered cfg s \<Longrightarrow> registered cfg (fold (step cfg) events s)"
  by (induction events arbitrary: s) (simp_all add: registered_step)

lemma registered_run: "registered cfg (run cfg events t0)"
  unfolding run_def by (rule registered_fold [OF registered_initial])

lemma one_request_per_key:
  assumes "registered cfg s" "requests s pid1 = Some (lat1, lon1)" "requests s pid2 = Some (lat2, lon2)"
    "cacheKey cfg lat1 lon1 = cacheKey cfg lat2 lon2"
  shows "pid1 = pid2"
proof -
  from assms(1,2) have "inFlight (provider s) (cacheKey cfg lat1 lon1) = Some pid1" by (simp add: registered_def)
  moreover from assms(1,3) have "inFlight (provider s) (cacheKey cfg lat2 lon2) = Some pid2" by (simp add: registered_def)
  ultimately show ?thesis using assms(4) by simp
qed

lemma call_joins:
  assumes "redisGet w (cacheKey cfg lat lon) = None" "cacheHit (provider s) (cacheKey cfg lat lon) (clock w) = None"
    "inFlight (provider s) (cacheKey cfg lat lon) = Some pid"
  shows "call cfg lat lon w s = (Existing pid, s)"
  using assms by (simp add: call_def lookup_def)

lemma call_hits:
  assumes "redisGet w (cacheKey cfg lat lon) = None" "cacheHit (provider s) (cacheKey cfg lat lon) (clock w) = Some v"
  shows "call cfg lat lon w s = (Settled (Inr v), s)"
  using assms by (simp add: call_def lookup_def)

lemma settled_stays:
  assumes "registered cfg s" "settled s pid = Some r"
  shows "settled (step cfg ev s) pid = Some r"
proof (cases ev)
  case (Call lat lon w)
  have "settled (snd (call cfg lat lon w s)) = settled s"
    by (simp add: call_def Let_def split: Lookup.splits prod.splits sum.splits)
  with Call assms(2) show ?thesis by simp
next
  case (Finish q w)
  from assms have idle: "requests s pid = None" by (simp add: registered_def)
  show ?thesis
  proof (cases "requests s q")
    case None
    with Finish assms(2) show ?thesis by (simp add: finish_def)
  next
    case (Some location)
    with idle have "q \<noteq> pid" by auto
    with Finish Some assms(2) show ?thesis
      by (simp add: finish_def Let_def split: prod.splits)
  qed
qed

lemma attemptLoop_success_cached:
  "fst (attemptLoop cfg lat lon attempt st) = Inr v \<Longrightarrow>
     cache (fst (snd (attemptLoop cfg lat lon attempt st))) (cacheKey cfg lat lon)
       = Some \<lparr>entry_value = v, expiresAt = clock (snd (snd (attemptLoop cfg lat lon attempt st))) + cacheTtlMs cfg\<rparr>"
proof (induction cfg lat lon attempt st rule: attemptLoop.induct)
  case (1 cfg lat lon attempt st)
  show ?case
  proof (cases "attempt > maxAttempts")
    case True
    with "1.prems" show ?thesis by (subst (asm) attemptLoop.simps) simp
  next
    case gt: False
    then have le: "attempt \<le> maxAttempts" by simp
    obtain outcome w1 where ax: "axios_get (snd st) = (outcome, w1)" by (cases "axios_get (snd st)")
    show ?thesis
    proof (cases outcome)
      case (Response vals remaining)
      note eq = attemptLoop_response [OF le ax [unfolded Response], of cfg lat lon]
      from "1.prems" show ?thesis unfolding eq by (simp add: Let_def)
    next
      case (Failure status retryAfter)
      note eq = attemptLoop_failure [OF le ax [unfolded Failure], of cfg lat lon]
      show ?thesis
      proof (cases "\<not> isRetryable status \<or> attempt = maxAttempts")
        case True
        with "1.prems" show ?thesis unfolding eq by (simp add: Let_def split: prod.splits if_splits)
      next
        case False
        obtain delayMs w2 where b: "backoff retryAfter attempt w1 = (delayMs, w2)"
          by (cases "backoff retryAfter attempt w1")
        have e: "attemptLoop cfg lat lon attempt st = attemptLoop cfg lat lon (attempt + 1) (fst st, sleep delayMs w2)"
          unfolding eq using False b by simp
        from "1.prems" have "fst (attemptLoop cfg lat lon (attempt + 1) (fst st, sleep delayMs w2)) = Inr v"
          unfolding e .
        from "1.IH" [OF gt refl refl ax [symmetric] Failure False refl b [symmetric] this]
        show ?thesis unfolding e .
      qed
    qed
  qed
qed


lemma finish_success:
  assumes "requests s pid = Some (lat, lon)" "fst (attemptLoop cfg lat lon 1 (provider s, w)) = Inr v"
  shows "settled (finish cfg pid w s) pid = Some (Inr v)"
    and "requests (finish cfg pid w s) pid = None"
    and "t < clock (snd (snd (attemptLoop cfg lat lon 1 (provider s, w)))) + cacheTtlMs cfg
         \<Longrightarrow> cacheHit (provider (finish cfg pid w s)) (cacheKey cfg lat lon) t = Some v"
proof -
  obtain r p' w' where a: "attemptLoop cfg lat lon 1 (provider s, w) = (r, p', w')"
    by (cases "attemptLoop cfg lat lon 1 (provider s, w)")
  with assms(2) have r: "r = Inr v" by simp
  from attemptLoop_success_cached [OF assms(2)] a
  have c: "cache p' (cacheKey cfg lat lon) = Some \<lparr>entry_value = v, expiresAt = clock w' + cacheTtlMs cfg\<rparr>"
    by simp
  from assms(1) a r show "settled (finish cfg pid w s) pid = Some (Inr v)"
    by (simp add: finish_def)
  from assms(1) a show "requests (finish cfg pid w s) pid = None"
    by (simp add: finish_def)
  assume "t < clock (snd (snd (attemptLoop cfg lat lon 1 (provider s, w)))) + cacheTtlMs cfg"
  with a have "t < clock w' + cacheTtlMs cfg" by simp
  with assms(1) a c show "cacheHit (provider (finish cfg pid w s)) (cacheKey cfg lat lon) t = Some v"
    by (simp add: finish_def cacheHit_def)
qed

text \<open>
  A call that runs alone, from its first step to its settlement, is the sequential
  \<open>getRealtime\<close>: the two steps of the schedule compose to the method of the source.
\<close>

lemma attemptLoop_inFlight_update:
  "attemptLoop cfg lat lon attempt ((fst st)\<lparr>inFlight := f\<rparr>, snd st) =
     (case attemptLoop cfg lat lon attempt st of (r, p', w') \<Rightarrow> (r, p'\<lparr>inFlight := f\<rparr>, w'))"
proof (induction cfg lat lon attempt st rule: attemptLoop.induct)
  case (1 cfg lat lon attempt st)
  let ?st = "((fst st)\<lparr>inFlight := f\<rparr>, snd st)"
  show ?case
  proof (cases "attempt > maxAttempts")
    case True
    then show ?thesis
      by (subst attemptLoop.simps, subst (2) attemptLoop.simps) (simp split: prod.splits)
  next
    case gt: False
    then have le: "attempt \<le> maxAttempts" by simp
    obtain outcome w1 where ax: "axios_get (snd st) = (outcome, w1)" by (cases "axios_get (snd st)")
    then have ax': "axios_get (snd ?st) = (outcome, w1)" by simp
    show ?thesis
    proof (cases outcome)
      case (Response vals remaining)
      show ?thesis
        unfolding attemptLoop_response [OF le ax [unfolded Response], of cfg lat lon]
          attemptLoop_response [OF le ax' [unfolded Response], of cfg lat lon]
        by (simp add: Let_def split: option.splits)
    next
      case (Failure status retryAfter)
      note eq = attemptLoop_failure [OF le ax [unfolded Failure], of cfg lat lon]
      note eq' = attemptLoop_failure [OF le ax' [unfolded Failure], of cfg lat lon]
      show ?thesis
      proof (cases "\<not> isRetryable status \<or> attempt = maxAttempts")
        case True
        then show ?thesis unfolding eq eq' by (simp add: Let_def split: prod.splits)
      next
        case False
        obtain delayMs w2 where b: "backoff retryAfter attempt w1 = (delayMs, w2)"
          by (cases "backoff retryAfter attempt w1")
        have "attemptLoop cfg lat lon (attempt + 1) ((fst (fst st, sleep delayMs w2))\<lparr>inFlight := f\<rparr>, snd (fst st, sleep delayMs w2)) =
                (case attemptLoop cfg lat lon (attempt + 1) (fst st, sleep delayMs w2) of
                   (r, p', w') \<Rightarrow> (r, p'\<lparr>inFlight := f\<rparr>, w'))"
          by (rule "1.IH" [OF gt refl refl ax [symmetric] Failure False refl b [symmetric]])
        then show ?thesis unfolding eq eq' using False b by simp
      qed
    qed
  qed
qed

lemma getRealtime_is_call_then_finish:
  assumes miss: "lookup (provider s) (cacheKey cfg lat lon) (clock w) (redisGet w (cacheKey cfg lat lon)) = Miss"
    and admitted: "enter breakerConfig (clock w) (breaker s) = Inr cb1"
  shows "fst (call cfg lat lon w s) = Existing (nextId s)
     \<and> getRealtime cfg lat lon (breaker s, provider s, w) =
         (let s2 = finish cfg (nextId s) w (snd (call cfg lat lon w s))
          in (Settled (the (settled s2 (nextId s))), breaker s2, provider s2,
              snd (snd (attemptLoop cfg lat lon 1 (provider s, w)))))"
proof -
  let ?key = "cacheKey cfg lat lon"
  let ?f = "(inFlight (provider s))(?key \<mapsto> nextId s)"
  obtain r p' w' where run: "attemptLoop cfg lat lon 1 (provider s, w) = (r, p', w')"
    by (cases "attemptLoop cfg lat lon 1 (provider s, w)")
  have same: "inFlight p' = inFlight (provider s)"
    using attemptLoop_inFlight [of cfg lat lon 1 "(provider s, w)"] run by simp
  have run': "attemptLoop cfg lat lon 1 ((provider s)\<lparr>inFlight := ?f\<rparr>, w) = (r, p'\<lparr>inFlight := ?f\<rparr>, w')"
    using attemptLoop_inFlight_update [where cfg = cfg and lat = lat and lon = lon and attempt = 1
        and st = "(provider s, w)" and f = ?f] run by simp
  have cl: "call cfg lat lon w s =
      (Existing (nextId s),
       s\<lparr>breaker := cb1, provider := (provider s)\<lparr>inFlight := ?f\<rparr>,
         requests := (requests s)(nextId s \<mapsto> (lat, lon)), nextId := nextId s + 1\<rparr>)"
    using miss admitted by (simp add: call_def)
  have gr: "getRealtime cfg lat lon (breaker s, provider s, w) =
      (Settled r,
       (case r of Inr result \<Rightarrow> onSuccess (clock w') cb1 | Inl error \<Rightarrow> onFailure breakerConfig (clock w') cb1),
       p'\<lparr>inFlight := (inFlight p')(?key := None)\<rparr>, w')"
    using miss admitted run
    by (cases r) (simp_all add: getRealtime_def CircuitBreaker_execute_def Let_def)
  show ?thesis
    unfolding cl gr
    by (cases r) (simp_all add: finish_def run' [simplified] run [simplified] same Let_def)
qed

lemma getRealtime_is_call:
  assumes "lookup (provider s) (cacheKey cfg lat lon) (clock w) (redisGet w (cacheKey cfg lat lon)) \<noteq> Miss
           \<or> enter breakerConfig (clock w) (breaker s) = Inl e"
  shows "fst (getRealtime cfg lat lon (breaker s, provider s, w)) = fst (call cfg lat lon w s)
     \<and> fst (snd (getRealtime cfg lat lon (breaker s, provider s, w))) = breaker (snd (call cfg lat lon w s))
     \<and> fst (snd (snd (getRealtime cfg lat lon (breaker s, provider s, w)))) = provider (snd (call cfg lat lon w s))"
proof -
  have "inFlight (provider s) (cacheKey cfg lat lon) = None"
    if "lookup (provider s) (cacheKey cfg lat lon) (clock w) (redisGet w (cacheKey cfg lat lon)) = Miss"
    using that by (simp add: lookup_def split: option.splits if_splits)
  then have "(provider s)\<lparr>inFlight := (inFlight (provider s))(cacheKey cfg lat lon := None)\<rparr> = provider s"
    if "lookup (provider s) (cacheKey cfg lat lon) (clock w) (redisGet w (cacheKey cfg lat lon)) = Miss"
    using that by (simp add: fun_upd_idem)
  with assms show ?thesis
    by (cases "lookup (provider s) (cacheKey cfg lat lon) (clock w) (redisGet w (cacheKey cfg lat lon))")
      (auto simp add: getRealtime_def call_def CircuitBreaker_execute_def Let_def split: prod.splits)
qed

text \<open>
  Claim C9. In every schedule of calls and settlements, two pending requests with the
  same cache key are the same request, and a pending request is the entry of
  \<open>inFlight\<close> for its key: at most one upstream request per key is outstanding. A call
  that misses the caches while a request for its key is pending gets that very
  request (the same promise, so the same outcome) and changes nothing; a request that
  succeeds settles with the value it caches, and until the entry expires (the time of
  the answer plus the cache TTL) a call that finds it returns this value and changes
  nothing, so it starts no request; and the outcome of a settled request never changes.
\<close>

theorem single_flight_per_key:
  "(requests (run cfg events t0) pid1 = Some (lat1, lon1) \<and> requests (run cfg events t0) pid2 = Some (lat2, lon2)
      \<and> cacheKey cfg lat1 lon1 = cacheKey cfg lat2 lon2 \<longrightarrow> pid1 = pid2)
   \<and> (requests (run cfg events t0) pid = Some (lat, lon)
      \<longrightarrow> inFlight (provider (run cfg events t0)) (cacheKey cfg lat lon) = Some pid)
   \<and> (redisGet w (cacheKey cfg lat lon) = None \<and> cacheHit (provider s) (cacheKey cfg lat lon) (clock w) = None
        \<and> inFlight (provider s) (cacheKey cfg lat lon) = Some pid
      \<longrightarrow> call cfg lat lon w s = (Existing pid, s))
   \<and> (redisGet w (cacheKey cfg lat lon) = None \<and> cacheHit (provider s) (cacheKey cfg lat lon) (clock w) = Some v
      \<longrightarrow> call cfg lat lon w s = (Settled (Inr v), s))
   \<and> (requests s pid = Some (lat, lon) \<and> fst (attemptLoop cfg lat lon 1 (provider s, w)) = Inr v
      \<longrightarrow> settled (finish cfg pid w s) pid = Some (Inr v)
          \<and> (\<forall>t. t < clock (snd (snd (attemptLoop cfg lat lon 1 (provider s, w)))) + cacheTtlMs cfg
                \<longrightarrow> cacheHit (provider (finish cfg pid w s)) (cacheKey cfg lat lon) t = Some v))
   \<and> (settled (run cfg events t0) pid = Some r \<longrightarrow> settled (step cfg ev (run cfg events t0)) pid = Some r)"
proof -
  note inv = registered_run [of cfg events t0]
  have one: "pid1 = pid2"
    if "requests (run cfg events t0) pid1 = Some (lat1, lon1) \<and> requests (run cfg events t0) pid2 = Some (lat2, lon2)
      \<and> cacheKey cfg lat1 lon1 = cacheKey cfg lat2 lon2"
    using one_request_per_key [OF inv, of pid1 lat1 lon1 pid2 lat2 lon2] that by simp
  have reg: "inFlight (provider (run cfg events t0)) (cacheKey cfg lat lon) = Some pid"
    if "requests (run cfg events t0) pid = Some (lat, lon)"
    using inv that by (simp add: registered_def)
  have stable: "settled (step cfg ev (run cfg events t0)) pid = Some r"
    if "settled (run cfg events t0) pid = Some r"
    using settled_stays [OF inv that] .
  from one reg call_joins [of w cfg lat lon s pid] call_hits [of w cfg lat lon s v]
    finish_success [of s pid lat lon cfg w v] stable
  show ?thesis by blast
qed

theorem single_flight_per_key_witness:
  "requests oneCall 0 = Some (42, -71)
   \<and> inFlight (provider oneCall) (cacheKey metricConfig 42 (-71)) = Some 0
   \<and> call metricConfig 42 (-71) (worldAt 10) oneCall = (Existing 0, oneCall)
   \<and> settled callSettled 0 = Some (Inr (mapResponse clearSky))
   \<and> requests callSettled 0 = None
   \<and> call metricConfig 42 (-71) (worldAt 1000) callSettled = (Settled (Inr (mapResponse clearSky)), callSettled)
   \<and> settled (step metricConfig (Call 42 (-71) (worldAt 1000)) callSettled) 0 = Some (Inr (mapResponse clearSky))"
proof -
  let ?key = "cacheKey metricConfig 42 (-71)"
  have active: "requests oneCall 0 = Some (42, -71)"
    and miss: "redisGet (worldAt 10) ?key = None \<and> cacheHit (provider oneCall) ?key (clock (worldAt 10)) = None"
    and ok: "fst (attemptLoop metricConfig 42 (-71) 1 (provider oneCall, worldAt 20)) = Inr (mapResponse clearSky)"
    and done': "callSettled = finish metricConfig 0 (worldAt 20) oneCall"
    and later: "redisGet (worldAt 1000) ?key = None"
      "clock (worldAt 1000) < clock (snd (snd (attemptLoop metricConfig 42 (-71) 1 (provider oneCall, worldAt 20)))) + cacheTtlMs metricConfig"
    by (simp_all add: oneCall_def callSettled_def run_def) code_simp+
  have registered: "inFlight (provider oneCall) ?key = Some 0"
    using single_flight_per_key [where cfg = metricConfig and events = "[Call 42 (-71) (worldAt 0)]" and ?t0.0 = 0
        and pid = 0 and lat = 42 and lon = "-71" and ?pid1.0 = 0 and ?pid2.0 = 0 and ?lat1.0 = 42 and ?lon1.0 = "-71"
        and ?lat2.0 = 42 and ?lon2.0 = "-71" and w = "worldAt 10" and s = oneCall and v = "mapResponse clearSky"
        and r = "Inr (mapResponse clearSky)" and ev = "Call 42 (-71) (worldAt 1000)"]
      active
    by (simp add: oneCall_def)
  have joins: "call metricConfig 42 (-71) (worldAt 10) oneCall = (Existing 0, oneCall)"
    using single_flight_per_key [where cfg = metricConfig and events = "[Call 42 (-71) (worldAt 0)]" and ?t0.0 = 0
        and pid = 0 and lat = 42 and lon = "-71" and ?pid1.0 = 0 and ?pid2.0 = 0 and ?lat1.0 = 42 and ?lon1.0 = "-71"
        and ?lat2.0 = 42 and ?lon2.0 = "-71" and w = "worldAt 10" and s = oneCall and v = "mapResponse clearSky"
        and r = "Inr (mapResponse clearSky)" and ev = "Call 42 (-71) (worldAt 1000)"]
      miss registered
    by simp
  have fin: "settled callSettled 0 = Some (Inr (mapResponse clearSky))
      \<and> cacheHit (provider callSettled) ?key (clock (worldAt 1000)) = Some (mapResponse clearSky)"
    using single_flight_per_key [where cfg = metricConfig and events = "[Call 42 (-71) (worldAt 0)]" and ?t0.0 = 0
        and pid = 0 and lat = 42 and lon = "-71" and ?pid1.0 = 0 and ?pid2.0 = 0 and ?lat1.0 = 42 and ?lon1.0 = "-71"
        and ?lat2.0 = 42 and ?lon2.0 = "-71" and w = "worldAt 20" and s = oneCall and v = "mapResponse clearSky"
        and r = "Inr (mapResponse clearSky)" and ev = "Call 42 (-71) (worldAt 1000)"]
      active ok later(2)
    by (simp add: done')
  have hits: "call metricConfig 42 (-71) (worldAt 1000) callSettled = (Settled (Inr (mapResponse clearSky)), callSettled)"
    using single_flight_per_key [where cfg = metricConfig and events = "[Call 42 (-71) (worldAt 0)]" and ?t0.0 = 0
        and pid = 0 and lat = 42 and lon = "-71" and ?pid1.0 = 0 and ?pid2.0 = 0 and ?lat1.0 = 42 and ?lon1.0 = "-71"
        and ?lat2.0 = 42 and ?lon2.0 = "-71" and w = "worldAt 1000" and s = callSettled and v = "mapResponse clearSky"
        and r = "Inr (mapResponse clearSky)" and ev = "Call 42 (-71) (worldAt 1000)"]
      later(1) fin
    by simp
  have stays: "settled (step metricConfig (Call 42 (-71) (worldAt 1000)) callSettled) 0 = Some (Inr (mapResponse clearSky))"
    using single_flight_per_key [where cfg = metricConfig
        and events = "[Call 42 (-71) (worldAt 0), Finish 0 (worldAt 20)]" and ?t0.0 = 0
        and pid = 0 and lat = 42 and lon = "-71" and ?pid1.0 = 0 and ?pid2.0 = 0 and ?lat1.0 = 42 and ?lon1.0 = "-71"
        and ?lat2.0 = 42 and ?lon2.0 = "-71" and w = "worldAt 1000" and s = callSettled and v = "mapResponse clearSky"
        and r = "Inr (mapResponse clearSky)" and ev = "Call 42 (-71) (worldAt 1000)"]
      fin
    by (simp add: callSettled_def)
  have gone: "requests callSettled 0 = None"
    by (simp add: done' finish_success(2) [OF active ok])
  from active registered joins fin hits stays gone show ?thesis by simp
qed

text \<open>
  The key of a call. Two calls have the same key exactly when their coordinates have
  the same rendering with three decimals and their units agree, and two non-negative
  coordinates have the same rendering exactly when they round to the same number of
  thousandths. While the request for (42, -71) is pending, a call for (42.0004, -71)
  gets that request; a call for (42.0006, -71), or one in imperial units, starts a
  request of its own.
\<close>

lemma cacheKey_same:
  "(cacheKey cfg lat lon = cacheKey cfg' lat' lon')
     = (toFixed3 lat = toFixed3 lat' \<and> toFixed3 lon = toFixed3 lon' \<and> units cfg = units cfg')"
  by (simp add: cacheKey_def)

lemma toFixed3_rounds:
  assumes "0 \<le> x" "0 \<le> y"
  shows "(toFixed3 x = toFixed3 y) = (\<exists>n. real_of_int n - 1/2 \<le> x * 1000 \<and> x * 1000 < real_of_int n + 1/2
                                       \<and> real_of_int n - 1/2 \<le> y * 1000 \<and> y * 1000 < real_of_int n + 1/2)"
proof
  assume "toFixed3 x = toFixed3 y"
  with assms have eq: "\<lfloor>x * 1000 + 1/2\<rfloor> = \<lfloor>y * 1000 + 1/2\<rfloor>" by (simp add: toFixed3_def)
  let ?n = "\<lfloor>x * 1000 + 1/2\<rfloor>"
  have "real_of_int ?n \<le> x * 1000 + 1/2" "x * 1000 + 1/2 < real_of_int ?n + 1" by linarith+
  moreover have "real_of_int ?n \<le> y * 1000 + 1/2" "y * 1000 + 1/2 < real_of_int ?n + 1"
    unfolding eq by linarith+
  ultimately have "real_of_int ?n - 1/2 \<le> x * 1000 \<and> x * 1000 < real_of_int ?n + 1/2
                    \<and> real_of_int ?n - 1/2 \<le> y * 1000 \<and> y * 1000 < real_of_int ?n + 1/2"
    by linarith
  then show "\<exists>n. real_of_int n - 1/2 \<le> x * 1000 \<and> x * 1000 < real_of_int n + 1/2
                    \<and> real_of_int n - 1/2 \<le> y * 1000 \<and> y * 1000 < real_of_int n + 1/2"
    by (rule exI)
next
  assume "\<exists>n. real_of_int n - 1/2 \<le> x * 1000 \<and> x * 1000 < real_of_int n + 1/2
            \<and> real_of_int n - 1/2 \<le> y * 1000 \<and> y * 1000 < real_of_int n + 1/2"
  then obtain n where n: "real_of_int n - 1/2 \<le> x * 1000" "x * 1000 < real_of_int n + 1/2"
    "real_of_int n - 1/2 \<le> y * 1000" "y * 1000 < real_of_int n + 1/2" by blast
  have "\<lfloor>x * 1000 + 1/2\<rfloor> = n" using n(1,2) by (intro floor_unique) simp_all
  moreover have "\<lfloor>y * 1000 + 1/2\<rfloor> = n" using n(3,4) by (intro floor_unique) simp_all
  ultimately show "toFixed3 x = toFixed3 y" using assms by (simp add: toFixed3_def)
qed

lemma nearby_calls_share_the_request:
  "fst (call metricConfig 42 (-71) (worldAt 10) oneCall) = Existing 0
   \<and> fst (call metricConfig (420004 / 10000) (-71) (worldAt 10) oneCall) = Existing 0
   \<and> fst (call metricConfig (420006 / 10000) (-71) (worldAt 10) oneCall) = Existing 1
   \<and> fst (call (metricConfig\<lparr>units := imperial\<rparr>) 42 (-71) (worldAt 10) oneCall) = Existing 1"
  by code_simp

end
